theory Spec2Isabelle
  imports Complex_Main
begin

section \<open>Python values\<close>

text \<open>
  A Python \<open>str\<close> is a sequence of Unicode code points, so it is modelled as a list of
  integers; \<open>ustr\<close> turns an ASCII literal into such a list.  A \<open>float\<close> is
  modelled by the real number it stands for, and NaN (pandas' missing number) by \<open>None\<close>:
  every comparison with NaN is false, which the definitions below write out.
  A pandas \<open>Timestamp\<close> is modelled by the time that has passed since 1970-01-01 00:00,
  counted in days: a real number whose whole part is the day and whose fractional part is
  the time of day.  \<open>NaT\<close> is \<open>None\<close>.
\<close>

type_synonym ustring = "int list"

definition ustr :: "string \<Rightarrow> ustring" where
  "ustr s = map of_char s"

text \<open>\<open>str.isspace\<close>: the code points Python treats as whitespace.\<close>

definition py_isspace :: "int \<Rightarrow> bool" where
  "py_isspace c \<longleftrightarrow>
     (9 \<le> c \<and> c \<le> 13) \<or> (28 \<le> c \<and> c \<le> 32) \<or> c = 133 \<or> c = 160 \<or> c = 5760 \<or>
     (8192 \<le> c \<and> c \<le> 8202) \<or> c = 8232 \<or> c = 8233 \<or> c = 8239 \<or> c = 8287 \<or> c = 12288"

definition py_strip :: "ustring \<Rightarrow> ustring" where
  "py_strip s = rev (dropWhile py_isspace (rev (dropWhile py_isspace s)))"

text \<open>
  \<open>str.lower\<close> on the letters A to Z; other code points are left as they are.  The
  strings the source compares lower-cased text with (\<open>debit\<close>, \<open>dr\<close>, \<open>credit\<close>,
  \<open>cr\<close>) are ASCII.
\<close>

definition lower_cp :: "int \<Rightarrow> int" where
  "lower_cp c = (if 65 \<le> c \<and> c \<le> 90 then c + 32 else c)"

definition py_lower :: "ustring \<Rightarrow> ustring" where
  "py_lower s = map lower_cp s"

text \<open>\<open>str(x)\<close> of a text cell: a missing cell (NaN) prints as \<open>nan\<close>.\<close>

definition py_str :: "ustring option \<Rightarrow> ustring" where
  "py_str c = (case c of None \<Rightarrow> ustr ''nan'' | Some s \<Rightarrow> s)"

section \<open>Arithmetic on floats\<close>

text \<open>
  The product, the difference and the quotient of two floats are the exact results rounded
  to the nearest double, a tie going to the even significand (IEEE 754 binary64: 53
  significant bits, exponents from -1022, smaller numbers on the grid of \<open>2 ^ -1074\<close>).
  Overflow to infinity is not modelled.
\<close>

text \<open>The nearest whole number, a tie going to the even one.\<close>

definition round_even :: "real \<Rightarrow> int" where
  "round_even y =
     (let f = \<lfloor>y\<rfloor> in
        if y - of_int f < 1 / 2 then f
        else if y - of_int f > 1 / 2 then f + 1
        else if even f then f else f + 1)"

text \<open>The exponent of the spacing of the doubles around a number that is not 0.\<close>

definition ulp_exp :: "real \<Rightarrow> int" where
  "ulp_exp x = max \<lfloor>log 2 \<bar>x\<bar>\<rfloor> (- 1022) - 52"

definition round_double :: "real \<Rightarrow> real" where
  "round_double x =
     (if x = 0 then 0
      else sgn x * of_int (round_even (\<bar>x\<bar> / 2 powr of_int (ulp_exp x))) * 2 powr of_int (ulp_exp x))"

definition fmul :: "real \<Rightarrow> real \<Rightarrow> real" where
  "fmul x y = round_double (x * y)"

definition fsub :: "real \<Rightarrow> real \<Rightarrow> real" where
  "fsub x y = round_double (x - y)"

definition fdiv :: "real \<Rightarrow> real \<Rightarrow> real" where
  "fdiv x y = round_double (x / y)"

text \<open>The magnitude of the rounding of a positive number.\<close>

definition round_pos :: "real \<Rightarrow> real" where
  "round_pos x = of_int (round_even (x / 2 powr of_int (ulp_exp x))) * 2 powr of_int (ulp_exp x)"

text \<open>The float that \<open>0.1\<close> denotes: the double nearest to one tenth.\<close>

definition float_0_1 :: real where
  "float_0_1 = 3602879701896397 / 36028797018963968"

text \<open>The float that the literal \<open>0.2\<close> of the source denotes.\<close>

definition float_0_2 :: real where
  "float_0_2 = 3602879701896397 / 18014398509481984"

text \<open>The float that \<open>0.35\<close> denotes.\<close>

definition float_0_35 :: real where
  "float_0_35 = 3152519739159347 / 9007199254740992"

text \<open>The float that \<open>0.29\<close> denotes.\<close>

definition float_0_29 :: real where
  "float_0_29 = 5224175567749775 / 18014398509481984"

section \<open>Calendar\<close>

type_synonym timestamp = real

text \<open>Year, month and day of a day number, and back (proleptic Gregorian calendar).\<close>

definition civil_from_days :: "int \<Rightarrow> int \<times> int \<times> int" where
  "civil_from_days t =
     (let z = t + 719468;
          era = z div 146097;
          doe = z mod 146097;
          yoe = (doe - doe div 1460 + doe div 36524 - doe div 146096) div 365;
          doy = doe - (365 * yoe + yoe div 4 - yoe div 100);
          mp = (5 * doy + 2) div 153;
          d = doy - (153 * mp + 2) div 5 + 1;
          m = (if mp < 10 then mp + 3 else mp - 9);
          y = yoe + era * 400 + (if m \<le> 2 then 1 else 0)
      in (y, m, d))"

definition days_from_civil :: "int \<Rightarrow> int \<Rightarrow> int \<Rightarrow> int" where
  "days_from_civil y0 m d =
     (let y = (if m \<le> 2 then y0 - 1 else y0);
          era = y div 400;
          yoe = y mod 400;
          doy = (153 * (if m > 2 then m - 3 else m + 9) + 2) div 5 + d - 1;
          doe = yoe * 365 + yoe div 4 - yoe div 100 + doy
      in era * 146097 + doe - 719468)"

definition is_leap :: "int \<Rightarrow> bool" where
  "is_leap y \<longleftrightarrow> y mod 4 = 0 \<and> (y mod 100 \<noteq> 0 \<or> y mod 400 = 0)"

definition days_in_month :: "int \<Rightarrow> int \<Rightarrow> int" where
  "days_in_month y m =
     (if m = 2 then (if is_leap y then 29 else 28)
      else if m = 4 \<or> m = 6 \<or> m = 9 \<or> m = 11 then 30 else 31)"

text \<open>
  The calendar month of a timestamp, numbered consecutively (\<open>12 * year + month - 1\<close>);
  the time of day plays no part.
\<close>

definition month_index :: "timestamp \<Rightarrow> int" where
  "month_index t = (case civil_from_days \<lfloor>t\<rfloor> of (y, m, d) \<Rightarrow> 12 * y + (m - 1))"

text \<open>
  \<open>t - pd.DateOffset(months=k)\<close>: the same day of the month and the same time of day
  \<open>k\<close> months earlier, or the last day of that month when it is shorter.
\<close>

definition minus_months :: "timestamp \<Rightarrow> int \<Rightarrow> timestamp" where
  "minus_months t k =
     (case civil_from_days \<lfloor>t\<rfloor> of (y, m, d) \<Rightarrow>
        (let mi = 12 * y + (m - 1) - k;
             y' = mi div 12;
             m' = mi mod 12 + 1
         in of_int (days_from_civil y' m' (min d (days_in_month y' m'))) + (t - of_int \<lfloor>t\<rfloor>)))"

section \<open>The transaction table\<close>

text \<open>
  A \<open>DataFrame\<close> is its list of column names and its rows.  A row carries the cells of
  the four columns the source reads; a cell of a column that the table does not have is
  never looked at.  The \<open>date\<close> column holds timestamps (so that
  \<open>pd.to_datetime(..., errors='coerce')\<close> leaves it as it is), the \<open>amount\<close> column
  is numeric, and the index of a row is its position.
\<close>

record row =
  r_date :: "timestamp option"
  r_description :: "ustring option"
  r_type :: "ustring option"
  r_amount :: "real option"

record dataframe =
  columns :: "string list"
  rows :: "row list"

text \<open>\<open>df.empty\<close>: no rows, or no columns.\<close>

definition df_empty :: "dataframe \<Rightarrow> bool" where
  "df_empty df \<longleftrightarrow> rows df = [] \<or> columns df = []"

definition has_col :: "dataframe \<Rightarrow> string \<Rightarrow> bool" where
  "has_col df c \<longleftrightarrow> c \<in> set (columns df)"

primrec dropna :: "'a option list \<Rightarrow> 'a list" where
  "dropna [] = []"
| "dropna (x # xs) = (case x of None \<Rightarrow> dropna xs | Some v \<Rightarrow> v # dropna xs)"

text \<open>The mean and the population standard deviation in exact arithmetic.\<close>

definition mean :: "real list \<Rightarrow> real" where
  "mean xs = sum_list xs / real (length xs)"

definition std0 :: "real list \<Rightarrow> real" where
  "std0 xs = sqrt (sum_list (map (\<lambda>x. (x - mean xs)\<^sup>2) xs) / real (length xs))"

section \<open>What the libraries compute\<close>

text \<open>
  The scan calls four functions whose results are fixed by pandas, numpy and the Unicode
  tables of Python and not by the source: the sum that \<open>resample\<close> returns for the
  rows of a month, the mean of a series, its population standard deviation
  \<open>std(ddof=0)\<close>, which are computed in floating point in an order that the libraries
  choose, and \<open>str.lower\<close>.  They are parameters of the model, and what is proved of
  the scan holds whatever they return.  The sum is given the rows of the month, dates and
  amounts, in the order of the table; the mean and the deviation are given the values of
  the series in its order.
\<close>

record library =
  lib_sum :: "(timestamp \<times> real) list \<Rightarrow> real"
  lib_mean :: "real list \<Rightarrow> real"
  lib_std :: "real list \<Rightarrow> real"
  lib_lower :: "ustring \<Rightarrow> ustring"

text \<open>
  The reductions in exact arithmetic and the lower-casing of the letters A to Z.  The
  example tables below are scanned with them: their texts are ASCII, and their sums, means
  and deviations are either whole numbers that floating point computes exactly or decide
  the tests of the scan with a margin far above any rounding.
\<close>

definition exact_lib :: library where
  "exact_lib =
     \<lparr>lib_sum = (\<lambda>bucket. sum_list (map snd bucket)), lib_mean = mean, lib_std = std0,
      lib_lower = py_lower\<rparr>"

section \<open>compute_monthly_income\<close>

text \<open>
  \<open>set_index('date').resample('M')['amount'].sum()\<close>: one bucket for every calendar
  month from the month of the earliest date to the month of the latest one, in order;
  the sum of a month without rows is 0.  An empty input gives no bucket.
\<close>

definition resample_M_sum :: "(timestamp \<times> real) list \<Rightarrow> real list" where
  "resample_M_sum xs =
     (if xs = [] then []
      else let ms = map (\<lambda>p. month_index (fst p)) xs
           in map (\<lambda>m. sum_list (map snd (filter (\<lambda>p. month_index (fst p) = m) xs)))
                  [Min (set ms) .. Max (set ms)])"

text \<open>\<open>df.dropna(subset=['date', 'amount'])\<close>, as pairs of date and amount.\<close>

primrec dated_amounts :: "row list \<Rightarrow> (timestamp \<times> real) list" where
  "dated_amounts [] = []"
| "dated_amounts (r # rs) =
     (case (r_date r, r_amount r) of
        (Some d, Some a) \<Rightarrow> (d, a) # dated_amounts rs
      | _ \<Rightarrow> dated_amounts rs)"

text \<open>The estimate in exact arithmetic.\<close>

definition compute_monthly_income :: "dataframe \<Rightarrow> real" where
  "compute_monthly_income df =
     (if \<not> has_col df ''date'' \<or> \<not> has_col df ''amount'' then 0
      else let df2 = dated_amounts (rows df) in
        if df2 = [] then 0
        else let monthly = resample_M_sum df2;
                 monthly_income = filter (\<lambda>s. s > 0) monthly in
          if monthly_income = [] then
            (let credits = resample_M_sum (filter (\<lambda>p. snd p > 0) df2) in
               if credits = [] then 0 else mean credits)
          else mean monthly_income)"

text \<open>
  The same two functions with the sums and the means that the library computes: the
  number the scan works with.
\<close>

definition resample_M_sum_with :: "library \<Rightarrow> (timestamp \<times> real) list \<Rightarrow> real list" where
  "resample_M_sum_with lib xs =
     (if xs = [] then []
      else let ms = map (\<lambda>p. month_index (fst p)) xs
           in map (\<lambda>m. let bucket = filter (\<lambda>p. month_index (fst p) = m) xs
                        in if bucket = [] then 0 else lib_sum lib bucket)
                  [Min (set ms) .. Max (set ms)])"

definition compute_monthly_income_with :: "library \<Rightarrow> dataframe \<Rightarrow> real" where
  "compute_monthly_income_with lib df =
     (if \<not> has_col df ''date'' \<or> \<not> has_col df ''amount'' then 0
      else let df2 = dated_amounts (rows df) in
        if df2 = [] then 0
        else let monthly = resample_M_sum_with lib df2;
                 monthly_income = filter (\<lambda>s. s > 0) monthly in
          if monthly_income = [] then
            (let credits = resample_M_sum_with lib (filter (\<lambda>p. snd p > 0) df2) in
               if credits = [] then 0 else lib_mean lib credits)
          else lib_mean lib monthly_income)"

section \<open>detect_suspicious_transactions\<close>

datatype code = unaffordable | anomalous_amount | new_payee | freq_small_trans

datatype error = ValueError_amount_column

text \<open>
  A flag keeps the index of the row, its amount and the reason codes in the order they
  were appended; its date, description and type are those of the row, which the model
  keeps whole.  The message text of a reason is not modelled.
\<close>

record flag =
  f_index :: nat
  f_row :: row
  f_amount :: "real option"
  f_reasons :: "code list"

text \<open>The lower-cased, trimmed description the loop computes for a row.\<close>

definition norm_desc :: "library \<Rightarrow> ustring option \<Rightarrow> ustring" where
  "norm_desc lib c = lib_lower lib (py_strip (py_str c))"

definition row_desc :: "library \<Rightarrow> dataframe \<Rightarrow> row \<Rightarrow> ustring" where
  "row_desc lib dfc r =
     (if has_col dfc ''description'' then norm_desc lib (r_description r) else [])"

text \<open>The set of recent payees, as a list.\<close>

definition recent_payees :: "library \<Rightarrow> dataframe \<Rightarrow> int \<Rightarrow> ustring list" where
  "recent_payees lib dfc recent_payees_months =
     (if has_col dfc ''description'' \<and> has_col dfc ''date'' then
        (let ds = dropna (map r_date (rows dfc));
             recent_df =
               (if ds = [] then rows dfc
                else let min_date = minus_months (Max (set ds)) recent_payees_months
                     in filter (\<lambda>r. case r_date r of None \<Rightarrow> False | Some d \<Rightarrow> d \<ge> min_date)
                          (rows dfc))
         in map (\<lambda>s. lib_lower lib (py_strip s)) (dropna (map r_description recent_df)))
      else [])"

text \<open>The product \<open>unaffordable_threshold * monthly_income\<close> is a product of floats.\<close>

definition check_unaffordable :: "real \<Rightarrow> real \<Rightarrow> real option \<Rightarrow> bool" where
  "check_unaffordable unaffordable_threshold monthly_income amt =
     (case amt of None \<Rightarrow> False
      | Some a \<Rightarrow> monthly_income > 0 \<and> a < 0 \<and>
                  \<bar>a\<bar> > fmul unaffordable_threshold monthly_income)"

text \<open>\<open>z = (amt - mean_amt) / std_amt\<close>: a difference of floats, then a quotient.\<close>

definition check_anomalous :: "real \<Rightarrow> real \<Rightarrow> real \<Rightarrow> real option \<Rightarrow> bool" where
  "check_anomalous outlier_z mean_amt std_amt amt =
     (case amt of None \<Rightarrow> False
      | Some a \<Rightarrow> std_amt > 0 \<and> \<bar>fdiv (fsub a mean_amt) std_amt\<bar> \<ge> outlier_z)"

definition check_new_payee :: "ustring list \<Rightarrow> real \<Rightarrow> ustring \<Rightarrow> real option \<Rightarrow> bool" where
  "check_new_payee payees monthly_income desc amt =
     (desc \<noteq> [] \<and> desc \<notin> set payees \<and>
      (case amt of None \<Rightarrow> False
       | Some a \<Rightarrow> a < 0 \<or>
           \<bar>a\<bar> > (if monthly_income > 0 then fmul float_0_2 monthly_income else 0)))"

text \<open>The rows whose description, as text, trimmed and lower-cased, is \<open>desc\<close>.\<close>

definition payee_rows :: "library \<Rightarrow> dataframe \<Rightarrow> ustring \<Rightarrow> row list" where
  "payee_rows lib dfc desc = filter (\<lambda>r. norm_desc lib (r_description r) = desc) (rows dfc)"

text \<open>
  The sliding window over the sorted dates: for some \<open>i\<close> the attribute \<open>days\<close> of
  \<open>ds[i+3] - ds[i]\<close>, the number of whole days in the difference, is at most 7.
\<close>

definition window_hit :: "timestamp list \<Rightarrow> bool" where
  "window_hit ds = list_ex (\<lambda>i. \<lfloor>ds ! (i + 3) - ds ! i\<rfloor> \<le> 7) [0 ..< length ds - 3]"

definition check_freq :: "library \<Rightarrow> dataframe \<Rightarrow> ustring \<Rightarrow> bool" where
  "check_freq lib dfc desc =
     (has_col dfc ''date'' \<and> desc \<noteq> [] \<and>
      (let prs = payee_rows lib dfc desc in
         length prs \<ge> 4 \<and>
         (let dates_sorted = sort (dropna (map r_date prs)) in
            length dates_sorted \<ge> 4 \<and> window_hit dates_sorted)))"

definition row_reasons ::
  "library \<Rightarrow> dataframe \<Rightarrow> real \<Rightarrow> real \<Rightarrow> real \<Rightarrow> real \<Rightarrow> real \<Rightarrow> ustring list \<Rightarrow> row \<Rightarrow>
   code list" where
  "row_reasons lib dfc unaffordable_threshold outlier_z monthly_income mean_amt std_amt payees r =
     (let amt = r_amount r;
          desc = row_desc lib dfc r
      in (if check_unaffordable unaffordable_threshold monthly_income amt then [unaffordable] else [])
       @ (if check_anomalous outlier_z mean_amt std_amt amt then [anomalous_amount] else [])
       @ (if check_new_payee payees monthly_income desc amt then [new_payee] else [])
       @ (if check_freq lib dfc desc then [freq_small_trans] else []))"

text \<open>The sort key: one pass over the reasons, four tests for each.\<close>

definition score_step :: "code \<Rightarrow> int \<Rightarrow> int" where
  "score_step r score =
     (let s1 = (if r = unaffordable then score + 100 else score);
          s2 = (if r = anomalous_amount then s1 + 50 else s1);
          s3 = (if r = new_payee then s2 + 20 else s2)
      in (if r = freq_small_trans then s3 + 10 else s3))"

definition severity_score :: "flag \<Rightarrow> int" where
  "severity_score f = - fold score_step (f_reasons f) 0"

text \<open>The loop over the rows: a row with at least one reason becomes a flag.\<close>

definition flag_rows ::
  "library \<Rightarrow> dataframe \<Rightarrow> real \<Rightarrow> real \<Rightarrow> real \<Rightarrow> real \<Rightarrow> real \<Rightarrow> ustring list \<Rightarrow> flag list" where
  "flag_rows lib dfc unaffordable_threshold outlier_z monthly_income mean_amt std_amt payees =
     concat (map (\<lambda>(idx, r).
        (let reasons = row_reasons lib dfc unaffordable_threshold outlier_z monthly_income
                         mean_amt std_amt payees r
         in if reasons \<noteq> [] then
              [\<lparr>f_index = idx, f_row = r, f_amount = r_amount r, f_reasons = reasons\<rparr>]
            else []))
       (enumerate 0 (rows dfc)))"

text \<open>
  The scan.  \<open>sorted\<close> is stable and ascending in the key, as \<open>sort_key\<close> is.  The
  argument is \<open>None\<close> for Python's \<open>None\<close>.
\<close>

definition detect_suspicious_transactions ::
  "library \<Rightarrow> dataframe option \<Rightarrow> real \<Rightarrow> real \<Rightarrow> int \<Rightarrow> error + flag list" where
  "detect_suspicious_transactions lib df unaffordable_threshold outlier_z recent_payees_months =
     (case df of None \<Rightarrow> Inr []
      | Some dfc \<Rightarrow>
        if df_empty dfc then Inr []
        else if \<not> has_col dfc ''amount'' then Inl ValueError_amount_column
        else let monthly_income = compute_monthly_income_with lib dfc;
                 amounts = dropna (map r_amount (rows dfc)) in
          if amounts = [] then Inr []
          else let mean_amt = lib_mean lib amounts;
                   std_amt = (if lib_std lib amounts > 0 then lib_std lib amounts else 0);
                   payees = recent_payees lib dfc recent_payees_months
               in Inr (sort_key severity_score
                    (flag_rows lib dfc unaffordable_threshold outlier_z monthly_income
                       mean_amt std_amt payees)))"

text \<open>The flag the loop builds for the row at a position.\<close>

definition mk_flag ::
  "library \<Rightarrow> dataframe \<Rightarrow> real \<Rightarrow> real \<Rightarrow> real \<Rightarrow> real \<Rightarrow> real \<Rightarrow> ustring list \<Rightarrow> nat \<times> row \<Rightarrow>
   flag" where
  "mk_flag lib dfc th z inc mu sd ps p =
     \<lparr>f_index = fst p, f_row = snd p, f_amount = r_amount (snd p),
      f_reasons = row_reasons lib dfc th z inc mu sd ps (snd p)\<rparr>"

text \<open>
  The reasons the scan collects for a row of its table: the loop body with the income,
  the mean, the standard deviation and the recent payees the scan computes before the loop.
\<close>

definition scan_reasons :: "library \<Rightarrow> dataframe \<Rightarrow> real \<Rightarrow> real \<Rightarrow> int \<Rightarrow> row \<Rightarrow> code list" where
  "scan_reasons lib dfc th z k r =
     (let amounts = dropna (map r_amount (rows dfc))
      in row_reasons lib dfc th z (compute_monthly_income_with lib dfc) (lib_mean lib amounts)
           (if lib_std lib amounts > 0 then lib_std lib amounts else 0)
           (recent_payees lib dfc k) r)"

text \<open>The severity of a flag: the score that the sort key negates.\<close>

definition severity :: "flag \<Rightarrow> int" where
  "severity f = - severity_score f"






text \<open>
  The order of the result: a flag comes before another when it is more severe, or as
  severe and from an earlier row.
\<close>

definition before :: "flag \<Rightarrow> flag \<Rightarrow> bool" where
  "before f g \<longleftrightarrow> severity f > severity g \<or> (severity f = severity g \<and> f_index f < f_index g)"

text \<open>The same order, on the sort key.\<close>

definition key_before :: "flag \<Rightarrow> flag \<Rightarrow> bool" where
  "key_before f g \<longleftrightarrow>
     severity_score f < severity_score g \<or>
     (severity_score f = severity_score g \<and> f_index f < f_index g)"

text \<open>
  The condition of the burst heuristic as the specification words it, for a description:
  at least 4 rows have the description (as text, trimmed and lower-cased), at least 4 of
  them have a date, and some 4 consecutive dates, in sorted order, span at most 7 days.
\<close>

definition burst_condition :: "library \<Rightarrow> dataframe \<Rightarrow> ustring \<Rightarrow> bool" where
  "burst_condition lib dfc desc \<longleftrightarrow>
     length (payee_rows lib dfc desc) \<ge> 4 \<and>
     length (dropna (map r_date (payee_rows lib dfc desc))) \<ge> 4 \<and>
     (\<exists>j. j + 3 < length (dropna (map r_date (payee_rows lib dfc desc))) \<and>
          sort (dropna (map r_date (payee_rows lib dfc desc))) ! (j + 3) -
          sort (dropna (map r_date (payee_rows lib dfc desc))) ! j \<le> 7)"

text \<open>
  The condition the source tests: the span of the 4 dates is counted in whole days, the
  rest of a day being dropped, so that it holds for every span shorter than 8 days.
\<close>

definition burst_whole_days :: "library \<Rightarrow> dataframe \<Rightarrow> ustring \<Rightarrow> bool" where
  "burst_whole_days lib dfc desc \<longleftrightarrow>
     length (payee_rows lib dfc desc) \<ge> 4 \<and>
     length (dropna (map r_date (payee_rows lib dfc desc))) \<ge> 4 \<and>
     (\<exists>j. j + 3 < length (dropna (map r_date (payee_rows lib dfc desc))) \<and>
          \<lfloor>sort (dropna (map r_date (payee_rows lib dfc desc))) ! (j + 3) -
           sort (dropna (map r_date (payee_rows lib dfc desc))) ! j\<rfloor> \<le> 7)"

section \<open>Amounts in budget.py\<close>

text \<open>
  The digits are the ASCII digits; the decimal digits of other scripts, which the class
  \<open>\d\<close> and \<open>float\<close> also accept, are outside the model.
\<close>

definition is_digit :: "int \<Rightarrow> bool" where
  "is_digit c \<longleftrightarrow> 48 \<le> c \<and> c \<le> 57"

text \<open>\<open>s.replace(c, '')\<close> for a single character \<open>c\<close>.\<close>

definition remove_char :: "int \<Rightarrow> ustring \<Rightarrow> ustring" where
  "remove_char c s = filter (\<lambda>x. x \<noteq> c) s"

text \<open>\<open>re.sub(r'[^\d\.\-]', '', s)\<close>: only digits, dots and minus signs are kept.\<close>

definition keep_amount_chars :: "ustring \<Rightarrow> ustring" where
  "keep_amount_chars s = filter (\<lambda>c. is_digit c \<or> c = 46 \<or> c = 45) s"

definition digits_value :: "ustring \<Rightarrow> nat" where
  "digits_value ds = foldl (\<lambda>n c. 10 * n + nat (c - 48)) 0 ds"

text \<open>
  \<open>float(s)\<close> for a string of digits, dots and minus signs, which is all the
  substitution leaves: an optional minus sign, then digits with at most one dot and at
  least one digit.  The result is the sign, the digits read as a number, and the number of
  digits after the dot; \<open>None\<close> is the \<open>ValueError\<close>.  Rounding to a double and
  overflow are not modelled.
\<close>

definition float_parts :: "ustring \<Rightarrow> (bool \<times> nat \<times> nat) option" where
  "float_parts s =
     (let neg = (s \<noteq> [] \<and> hd s = 45);
          body = (if neg then tl s else s);
          ip = takeWhile is_digit body;
          rest = dropWhile is_digit body
      in case rest of
           [] \<Rightarrow> if ip = [] then None else Some (neg, digits_value ip, 0)
         | c # fp \<Rightarrow>
             if c = 46 \<and> list_all is_digit fp \<and> length ip + length fp > 0
             then Some (neg, digits_value (ip @ fp), length fp)
             else None)"

definition py_float :: "ustring \<Rightarrow> real option" where
  "py_float s =
     (case float_parts s of
        None \<Rightarrow> None
      | Some (neg, n, k) \<Rightarrow> Some ((if neg then - 1 else 1) * real n / 10 ^ k))"

text \<open>\<open>_clean_amount\<close>; the argument \<open>None\<close> is a missing cell.\<close>

definition clean_amount :: "ustring option \<Rightarrow> real option" where
  "clean_amount val =
     (case val of
        None \<Rightarrow> None
      | Some v \<Rightarrow>
          let s = py_strip v in
          if s = [] then None
          else let s1 = remove_char 44 (remove_char 8377 (remove_char 8377 s));
                   s2 = keep_amount_chars s1
               in if s2 = [] \<or> s2 = [46] \<or> s2 = [45] then None else py_float s2)"

section \<open>Sign normalisation in read_statement\<close>

text \<open>\<open>sub in s\<close> and \<open>s.endswith(suffix)\<close>.\<close>

primrec contains :: "ustring \<Rightarrow> ustring \<Rightarrow> bool" where
  "contains [] sub = (sub = [])"
| "contains (x # xs) sub = (take (length sub) (x # xs) = sub \<or> contains xs sub)"

definition ends_with :: "ustring \<Rightarrow> ustring \<Rightarrow> bool" where
  "ends_with s suffix \<longleftrightarrow>
     length suffix \<le> length s \<and> drop (length s - length suffix) s = suffix"

text \<open>
  \<open>normalize_amount\<close>, of the type text, the raw amount text and the parsed amount of
  a row.
\<close>

definition normalize_amount :: "ustring \<Rightarrow> ustring option \<Rightarrow> real option \<Rightarrow> real option" where
  "normalize_amount type_text amount_raw amount =
     (case amount of
        None \<Rightarrow> None
      | Some amt \<Rightarrow>
          let t = py_lower type_text in
          if contains t (ustr ''debit'') \<or> contains t (ustr ''dr'') then Some (- \<bar>amt\<bar>)
          else if contains t (ustr ''credit'') \<or> contains t (ustr ''cr'') then Some \<bar>amt\<bar>
          else let raw = py_lower (py_str amount_raw) in
            if ends_with raw (ustr ''cr'') \<or> contains raw (ustr '' cr'') then Some \<bar>amt\<bar>
            else if ends_with raw (ustr ''dr'') \<or> contains raw (ustr '' dr'') then Some (- \<bar>amt\<bar>)
            else Some amt)"

text \<open>
  A row of the frame \<open>filtered\<close> once its columns \<open>date\<close>, \<open>description\<close>,
  \<open>type\<close> and \<open>amount_raw\<close> are set: the type is a string (empty when the file
  has no type column), the raw amount is the text of the amount cell or missing.  Which
  rows of a file reach this point is decided by the steps before (reading, header
  location, the row mask); what follows holds for any rows.
\<close>

record filtered_row =
  fr_date :: "timestamp option"
  fr_description :: ustring
  fr_type :: ustring
  fr_amount_raw :: "ustring option"

text \<open>The amount of the row after \<open>_clean_amount\<close> and \<open>normalize_amount\<close>.\<close>

definition final_amount :: "filtered_row \<Rightarrow> real option" where
  "final_amount fr =
     normalize_amount (fr_type fr) (fr_amount_raw fr) (clean_amount (fr_amount_raw fr))"

definition final_row :: "filtered_row \<Rightarrow> row" where
  "final_row fr =
     \<lparr>r_date = fr_date fr, r_description = Some (fr_description fr), r_type = Some (fr_type fr),
      r_amount = final_amount fr\<rparr>"

text \<open>The final table: the rows whose amount is not null, in order.\<close>

definition final_table :: "filtered_row list \<Rightarrow> row list" where
  "final_table frs = map final_row (filter (\<lambda>fr. final_amount fr \<noteq> None) frs)"

text \<open>The cues of \<open>normalize_amount\<close>, named.\<close>

definition debit_cue :: "ustring \<Rightarrow> bool" where
  "debit_cue type_text \<longleftrightarrow>
     contains (py_lower type_text) (ustr ''debit'') \<or> contains (py_lower type_text) (ustr ''dr'')"

definition credit_cue :: "ustring \<Rightarrow> bool" where
  "credit_cue type_text \<longleftrightarrow>
     contains (py_lower type_text) (ustr ''credit'') \<or> contains (py_lower type_text) (ustr ''cr'')"

definition raw_cr_cue :: "ustring option \<Rightarrow> bool" where
  "raw_cr_cue amount_raw \<longleftrightarrow>
     ends_with (py_lower (py_str amount_raw)) (ustr ''cr'') \<or>
     contains (py_lower (py_str amount_raw)) (ustr '' cr'')"

definition raw_dr_cue :: "ustring option \<Rightarrow> bool" where
  "raw_dr_cue amount_raw \<longleftrightarrow>
     ends_with (py_lower (py_str amount_raw)) (ustr ''dr'') \<or>
     contains (py_lower (py_str amount_raw)) (ustr '' dr'')"


section \<open>Example tables\<close>

text \<open>A row dated at midnight of a day.\<close>

definition mk_row :: "int \<Rightarrow> string \<Rightarrow> real \<Rightarrow> row" where
  "mk_row d s a =
     \<lparr>r_date = Some (of_int d), r_description = Some (ustr s), r_type = None, r_amount = Some a\<rparr>"

definition table_no_rows :: dataframe where
  "table_no_rows = \<lparr>columns = [''date'', ''amount''], rows = []\<rparr>"

definition table_no_amount :: dataframe where
  "table_no_amount =
     \<lparr>columns = [''date'', ''description''],
      rows = [\<lparr>r_date = Some 20091, r_description = Some (ustr ''rent''),
               r_type = None, r_amount = None\<rparr>]\<rparr>"

definition table_null_amounts :: dataframe where
  "table_null_amounts =
     \<lparr>columns = [''date'', ''amount''],
      rows = [\<lparr>r_date = Some 20091, r_description = None, r_type = None, r_amount = None\<rparr>]\<rparr>"

text \<open>One month, January 2025, with a net sum of 1000.\<close>

definition table_income_1000 :: dataframe where
  "table_income_1000 =
     \<lparr>columns = [''date'', ''description'', ''amount''],
      rows = [mk_row (days_from_civil 2025 1 3) ''salary'' 2000,
              mk_row (days_from_civil 2025 1 10) ''rent'' (-600),
              mk_row (days_from_civil 2025 1 20) ''shop'' (-400)]\<rparr>"

text \<open>The amounts -10, -12, -9, -11 and -500, in a table with no other column.\<close>

definition outlier_amounts :: "real list" where
  "outlier_amounts = [-10, -12, -9, -11, -500]"

definition amount_row :: "real \<Rightarrow> row" where
  "amount_row a = \<lparr>r_date = None, r_description = None, r_type = None, r_amount = Some a\<rparr>"

definition table_outlier :: dataframe where
  "table_outlier = \<lparr>columns = [''amount''], rows = map amount_row outlier_amounts\<rparr>"

text \<open>
  Three rows: an old small debit to a payee not seen since, a salary, and a large debit.
  The estimated income is 100, and with the threshold 1 for the outlier test the flags
  score 20, 50 and 150.
\<close>

definition table_severity :: dataframe where
  "table_severity =
     \<lparr>columns = [''date'', ''description'', ''amount''],
      rows = [mk_row (days_from_civil 2024 1 15) ''oldshop'' (- 10),
              mk_row (days_from_civil 2025 1 3) ''salary'' 1000,
              mk_row (days_from_civil 2025 1 10) ''rent'' (- 900)]\<rparr>"

text \<open>The flags of the three rows.\<close>

definition flag_rent :: flag where
  "flag_rent = \<lparr>f_index = 2, f_row = mk_row 20098 ''rent'' (- 900), f_amount = Some (- 900),
     f_reasons = [unaffordable, anomalous_amount]\<rparr>"

definition flag_salary :: flag where
  "flag_salary = \<lparr>f_index = 1, f_row = mk_row 20091 ''salary'' 1000, f_amount = Some 1000,
     f_reasons = [anomalous_amount]\<rparr>"

definition flag_oldshop :: flag where
  "flag_oldshop = \<lparr>f_index = 0, f_row = mk_row 19737 ''oldshop'' (- 10), f_amount = Some (- 10),
     f_reasons = [new_payee]\<rparr>"

text \<open>Four rows with an empty description, all on the same day.\<close>

definition table_blank_burst :: dataframe where
  "table_blank_burst =
     \<lparr>columns = [''date'', ''description'', ''amount''],
      rows = [mk_row 20091 '''' 5, mk_row 20091 '''' 5, mk_row 20091 '''' 5, mk_row 20091 '''' 5]\<rparr>"

text \<open>A row dated at 18:00 of a day.\<close>

definition mk_row_evening :: "int \<Rightarrow> string \<Rightarrow> real \<Rightarrow> row" where
  "mk_row_evening d s a =
     \<lparr>r_date = Some (of_int d + 3 / 4), r_description = Some (ustr s), r_type = None,
      r_amount = Some a\<rparr>"

text \<open>
  Five payments to the same payee, written in four ways: three on consecutive days, one in
  the evening a week after the first, 7 days and 18 hours later, and one eight weeks
  later.
\<close>

definition table_burst :: dataframe where
  "table_burst =
     \<lparr>columns = [''date'', ''description'', ''amount''],
      rows = [mk_row 20089 ''Coffee'' (- 5), mk_row 20090 ''coffee '' (- 5),
              mk_row 20091 ''coffee'' (- 5), mk_row_evening 20096 ''COFFEE'' (- 5),
              mk_row 20148 ''coffee'' (- 5)]\<rparr>"




text \<open>The amount text of the first example: the rupee sign, then \<open>1,234.50\<close>.\<close>

definition rupee_amount :: ustring where
  "rupee_amount = 8377 # ustr ''1,234.50''"

definition mk_filtered :: "string \<Rightarrow> string \<Rightarrow> filtered_row" where
  "mk_filtered ty raw =
     \<lparr>fr_date = None, fr_description = ustr ''payment'', fr_type = ustr ty,
      fr_amount_raw = Some (ustr raw)\<rparr>"

text \<open>A debit of zero, and a type text with a credit cue and a debit cue.\<close>

definition table_zero_debit :: "filtered_row list" where
  "table_zero_debit = [mk_filtered ''Debit'' ''0'', mk_filtered ''Credit card withdrawal'' ''500'']"

definition table_signs :: "filtered_row list" where
  "table_signs =
     [mk_filtered ''UPI Debit'' ''Rs 500'', mk_filtered ''Credit'' ''-200'',
      mk_filtered [] ''300 Cr'', mk_filtered [] ''-50'', mk_filtered ''Credit'' ''--'']"


section \<open>Rounding to a double\<close>

lemma round_even_cases: "round_even y = \<lfloor>y\<rfloor> \<or> round_even y = \<lfloor>y\<rfloor> + 1"
  by (simp add: round_even_def Let_def)

lemma round_even_of_int: "round_even (of_int n) = n"
  by (simp add: round_even_def Let_def)

lemma round_even_mono:
  assumes "y \<le> y'"
  shows "round_even y \<le> round_even y'"
proof (cases "\<lfloor>y\<rfloor> = \<lfloor>y'\<rfloor>")
  case True
  then show ?thesis
    using assms by (auto simp: round_even_def Let_def)
next
  case False
  with assms have "\<lfloor>y\<rfloor> < \<lfloor>y'\<rfloor>"
    using floor_mono [of y y'] by linarith
  moreover have "round_even y \<le> \<lfloor>y\<rfloor> + 1"
    using round_even_cases [of y] by auto
  moreover have "\<lfloor>y'\<rfloor> \<le> round_even y'"
    using round_even_cases [of y'] by auto
  ultimately show ?thesis by linarith
qed

lemma round_even_ge: "of_int a \<le> y \<Longrightarrow> a \<le> round_even y"
  using round_even_mono [of "of_int a" y] by (simp add: round_even_of_int)

lemma round_even_le: "y \<le> of_int b \<Longrightarrow> round_even y \<le> b"
  using round_even_mono [of y "of_int b"] by (simp add: round_even_of_int)

lemma round_double_abs: "\<bar>round_double x\<bar> = (if x = 0 then 0 else round_pos \<bar>x\<bar>)"
proof (cases "x = 0")
  case True
  then show ?thesis by (simp add: round_double_def)
next
  case False
  have "0 \<le> \<bar>x\<bar> / 2 powr of_int (ulp_exp x)" by simp
  then have "0 \<le> round_even (\<bar>x\<bar> / 2 powr of_int (ulp_exp x))"
    using round_even_ge [of 0] by simp
  then show ?thesis
    using False by (simp add: round_double_def round_pos_def ulp_exp_def abs_mult abs_sgn_eq)
qed

lemma ulp_exp_mono:
  assumes "0 < x" and "x \<le> y"
  shows "ulp_exp x \<le> ulp_exp y"
proof -
  have "log 2 x \<le> log 2 y" using assms by simp
  then have "\<lfloor>log 2 x\<rfloor> \<le> \<lfloor>log 2 y\<rfloor>" by (rule floor_mono)
  then show ?thesis using assms by (simp add: ulp_exp_def)
qed

lemma below_binade:
  assumes "0 < x"
  shows "x < 2 powr (of_int (ulp_exp x) + 53)"
proof -
  have "x < 2 powr (of_int \<lfloor>log 2 x\<rfloor> + 1)"
    using assms floor_log_eq_powr_iff [of x 2 "\<lfloor>log 2 x\<rfloor>"] by simp
  also have "\<dots> \<le> 2 powr (of_int (ulp_exp x) + 53)"
    using assms by (simp add: ulp_exp_def)
  finally show ?thesis .
qed

lemma round_pos_le:
  assumes "0 < x"
  shows "round_pos x \<le> 2 powr (of_int (ulp_exp x) + 53)"
proof -
  let ?u = "(2::real) powr of_int (ulp_exp x)"
  have "x / ?u \<le> 2 powr (of_int (ulp_exp x) + 53) / ?u"
    using below_binade [OF assms] by (simp add: divide_le_cancel)
  also have "\<dots> = 2 powr 53" by (simp add: powr_add)
  also have "\<dots> = of_int (2 ^ 53)" by simp
  finally have "round_even (x / ?u) \<le> 2 ^ 53" by (rule round_even_le)
  then have "(of_int (round_even (x / ?u)) :: real) \<le> of_int (2 ^ 53)"
    by (simp only: of_int_le_iff)
  then have "of_int (round_even (x / ?u)) \<le> (2 powr 53 :: real)"
    by simp
  then have "of_int (round_even (x / ?u)) * ?u \<le> 2 powr 53 * ?u"
    by (simp add: mult_right_mono)
  then show ?thesis by (simp add: round_pos_def powr_add mult.commute)
qed

lemma round_pos_ge:
  assumes "0 < x" and "- 1074 < ulp_exp x"
  shows "2 powr (of_int (ulp_exp x) + 52) \<le> round_pos x"
proof -
  let ?u = "(2::real) powr of_int (ulp_exp x)"
  have e: "ulp_exp x = \<lfloor>log 2 x\<rfloor> - 52"
    using assms by (simp add: ulp_exp_def max_def split: if_splits)
  have "2 powr of_int \<lfloor>log 2 x\<rfloor> \<le> x"
    using assms floor_log_eq_powr_iff [of x 2 "\<lfloor>log 2 x\<rfloor>"] by simp
  then have "2 powr (of_int (ulp_exp x) + 52) \<le> x" by (simp add: e)
  then have "2 powr (of_int (ulp_exp x) + 52) / ?u \<le> x / ?u"
    by (simp add: divide_le_cancel)
  moreover have "(2::real) powr (of_int (ulp_exp x) + 52) / ?u = of_int (2 ^ 52)"
    by (simp add: powr_add)
  ultimately have "2 ^ 52 \<le> round_even (x / ?u)"
    by (intro round_even_ge) simp
  then have "(of_int (2 ^ 52) :: real) \<le> of_int (round_even (x / ?u))"
    by (simp only: of_int_le_iff)
  then have "(2 powr 52 :: real) \<le> of_int (round_even (x / ?u))"
    by simp
  then have "2 powr 52 * ?u \<le> of_int (round_even (x / ?u)) * ?u"
    by (simp add: mult_right_mono)
  then show ?thesis by (simp add: round_pos_def powr_add mult.commute)
qed

text \<open>Rounding is monotone.\<close>

lemma round_pos_mono:
  assumes "0 < x" and "x \<le> y"
  shows "round_pos x \<le> round_pos y"
proof (cases "ulp_exp x = ulp_exp y")
  case True
  have "x / 2 powr of_int (ulp_exp y) \<le> y / 2 powr of_int (ulp_exp y)"
    using assms by (simp add: divide_le_cancel)
  then have "round_even (x / 2 powr of_int (ulp_exp y)) \<le> round_even (y / 2 powr of_int (ulp_exp y))"
    by (rule round_even_mono)
  then show ?thesis
    by (simp add: round_pos_def True mult_right_mono)
next
  case False
  with ulp_exp_mono [OF assms] have lt: "ulp_exp x < ulp_exp y" by simp
  have y: "0 < y" using assms by simp
  have "- 1074 \<le> ulp_exp x" by (simp add: ulp_exp_def)
  with lt have "- 1074 < ulp_exp y" by simp
  from round_pos_ge [OF y this] have "2 powr (of_int (ulp_exp y) + 52) \<le> round_pos y" .
  moreover have "round_pos x \<le> 2 powr (of_int (ulp_exp x) + 53)"
    using assms(1) by (rule round_pos_le)
  moreover have "(2::real) powr (of_int (ulp_exp x) + 53) \<le> 2 powr (of_int (ulp_exp y) + 52)"
    using lt by simp
  ultimately show ?thesis by linarith
qed

text \<open>So the magnitude of a rounded number keeps a bound that is itself a double.\<close>

lemma round_double_abs_le:
  assumes "\<bar>x\<bar> \<le> c" and "round_double c = c"
  shows "\<bar>round_double x\<bar> \<le> c"
proof (cases "x = 0")
  case True
  with assms show ?thesis by (simp add: round_double_def)
next
  case False
  then have c: "0 < c" using assms by simp
  have "\<bar>round_double x\<bar> = round_pos \<bar>x\<bar>" using False by (simp add: round_double_abs)
  also have "\<dots> \<le> round_pos c" using False assms by (intro round_pos_mono) simp_all
  also have "\<dots> = \<bar>round_double c\<bar>" using c by (simp add: round_double_abs)
  finally show ?thesis using assms c by simp
qed

lemma round_double_abs_ge:
  assumes "c \<le> \<bar>x\<bar>" and "0 < c" and "round_double c = c"
  shows "c \<le> \<bar>round_double x\<bar>"
proof -
  have x: "x \<noteq> 0" using assms by auto
  have "c = \<bar>round_double c\<bar>" using assms by simp
  also have "\<dots> = round_pos c" using assms(2) by (simp add: round_double_abs)
  also have "\<dots> \<le> round_pos \<bar>x\<bar>" using assms by (intro round_pos_mono) simp_all
  also have "\<dots> = \<bar>round_double x\<bar>" using x by (simp add: round_double_abs)
  finally show ?thesis .
qed

text \<open>The rounding of a number whose binade is known.\<close>

lemma round_double_binade:
  assumes "2 powr of_int e \<le> q" and "q < 2 powr (of_int e + 1)" and "- 1022 \<le> e"
  shows "round_double q = of_int (round_even (q / 2 powr (of_int e - 52))) * 2 powr (of_int e - 52)"
proof -
  have "0 < (2::real) powr of_int e" by simp
  with assms(1) have q: "0 < q" by linarith
  have "\<lfloor>log 2 q\<rfloor> = e"
    using q assms floor_log_eq_powr_iff [of q 2 e] by simp
  then have u: "ulp_exp q = e - 52" using q assms(3) by (simp add: ulp_exp_def)
  show ?thesis
    using q by (simp add: round_double_def u)
qed

text \<open>A number with at most 53 significant bits is its own rounding.\<close>

lemma round_double_fix:
  assumes "2 powr of_int e \<le> q" and "q < 2 powr (of_int e + 1)" and "- 1022 \<le> e"
    and "q / 2 powr (of_int e - 52) = of_int n"
  shows "round_double q = q"
proof -
  have "round_double q = of_int (round_even (q / 2 powr (of_int e - 52))) * 2 powr (of_int e - 52)"
    using assms(1-3) by (rule round_double_binade)
  also have "\<dots> = of_int n * 2 powr (of_int e - 52)"
    unfolding assms(4) round_even_of_int ..
  also have "\<dots> = q"
    using assms(4) by (simp add: field_simps)
  finally show ?thesis .
qed

lemma round_double_500: "round_double 500 = 500"
  by (rule round_double_fix [of 8 _ "500 * 2 ^ 44"]; simp add: powr_minus powr_numeral)

lemma round_double_50: "round_double 50 = 50"
  by (rule round_double_fix [of 5 _ "50 * 2 ^ 47"]; simp add: powr_minus powr_numeral)

lemma round_double_half: "round_double (1 / 2) = 1 / 2"
  by (rule round_double_fix [of "- 1" _ "2 ^ 52"]; simp add: powr_minus powr_numeral)

lemma round_double_1: "round_double 1 = 1"
  by (rule round_double_fix [of 0 _ "2 ^ 52"]; simp add: powr_minus powr_numeral)

lemma round_double_5_2: "round_double (5 / 2) = 5 / 2"
  by (rule round_double_fix [of 1 _ "5 * 2 ^ 50"]; simp add: powr_minus powr_numeral)

lemma round_double_7_4: "round_double (7 / 4) = 7 / 4"
  by (rule round_double_fix [of 0 _ "7 * 2 ^ 50"]; simp add: powr_minus powr_numeral)

lemma round_double_64: "round_double 64 = 64"
  by (rule round_double_fix [of 6 _ "2 ^ 52"]; simp add: powr_minus powr_numeral)

lemma round_double_128: "round_double 128 = 128"
  by (rule round_double_fix [of 7 _ "2 ^ 52"]; simp add: powr_minus powr_numeral)

lemma round_double_384: "round_double 384 = 384"
  by (rule round_double_fix [of 8 _ "384 * 2 ^ 44"]; simp add: powr_minus powr_numeral)

lemma round_double_392: "round_double 392 = 392"
  by (rule round_double_fix [of 8 _ "392 * 2 ^ 44"]; simp add: powr_minus powr_numeral)

lemma round_double_896: "round_double 896 = 896"
  by (rule round_double_fix [of 9 _ "896 * 2 ^ 43"]; simp add: powr_minus powr_numeral)

text \<open>
  The product of the float 0.35 and 1000 is 350: the exact product, just under 350, lies
  less than half a spacing below it.
\<close>

lemma fmul_0_35: "fmul float_0_35 1000 = 350"
proof -
  have "round_double (3152519739159347000 / 9007199254740992) =
      of_int (round_even (3152519739159347000 / 9007199254740992 / 2 powr (of_int 8 - 52))) *
        2 powr (of_int 8 - 52)"
    by (rule round_double_binade) (simp_all add: powr_numeral)
  also have "3152519739159347000 / 9007199254740992 / 2 powr (of_int 8 - 52) =
      (3152519739159347000 / 512 :: real)"
    by (simp add: powr_minus powr_numeral)
  also have "round_even (3152519739159347000 / 512) = 6157265115545600"
    by (simp add: round_even_def Let_def)
  finally show ?thesis
    by (simp add: fmul_def float_0_35_def powr_minus powr_numeral)
qed

text \<open>The product of the float 0.29 and 100 is the float next below 29.\<close>

lemma fmul_0_29: "fmul float_0_29 100 = 8162774324609023 / 281474976710656"
proof -
  have "round_double (522417556774977500 / 18014398509481984) =
      of_int (round_even (522417556774977500 / 18014398509481984 / 2 powr (of_int 4 - 52))) *
        2 powr (of_int 4 - 52)"
    by (rule round_double_binade) (simp_all add: powr_numeral)
  also have "522417556774977500 / 18014398509481984 / 2 powr (of_int 4 - 52) =
      (130604389193744375 / 16 :: real)"
    by (simp add: powr_minus powr_numeral)
  also have "round_even (130604389193744375 / 16) = 8162774324609023"
    by (simp add: round_even_def Let_def)
  finally show ?thesis
    by (simp add: fmul_def float_0_29_def powr_minus powr_numeral)
qed

text \<open>The quotient of the floats 1 and 10 is the float 0.1, which is above one tenth.\<close>

lemma fdiv_1_10: "fdiv 1 10 = float_0_1" "1 / 10 < float_0_1"
proof -
  have "round_double (1 / 10) =
      of_int (round_even (1 / 10 / 2 powr (of_int (- 4) - 52))) * 2 powr (of_int (- 4) - 52)"
    by (rule round_double_binade) (simp_all add: powr_minus powr_numeral)
  also have "1 / 10 / 2 powr (of_int (- 4) - 52) = (72057594037927936 / 10 :: real)"
    by (simp add: powr_minus powr_numeral)
  also have "round_even (72057594037927936 / 10) = 7205759403792794"
    by (simp add: round_even_def Let_def)
  finally show "fdiv 1 10 = float_0_1"
    by (simp add: fdiv_def float_0_1_def powr_minus powr_numeral)
  show "1 / 10 < float_0_1"
    by (simp add: float_0_1_def)
qed

section \<open>The scan with the exact reductions\<close>

lemma exact_lib_simps:
  "lib_sum exact_lib = (\<lambda>bucket. sum_list (map snd bucket))" "lib_mean exact_lib = mean"
  "lib_std exact_lib = std0" "lib_lower exact_lib = py_lower"
  by (simp_all add: exact_lib_def)

lemma resample_exact: "resample_M_sum_with exact_lib xs = resample_M_sum xs"
  by (simp add: resample_M_sum_with_def resample_M_sum_def exact_lib_simps Let_def)

lemma compute_monthly_income_exact:
  "compute_monthly_income_with exact_lib df = compute_monthly_income df"
  by (simp add: compute_monthly_income_with_def compute_monthly_income_def resample_exact
        exact_lib_simps Let_def)

text \<open>The calendar month of a whole number of days.\<close>

lemma month_index_numeral:
  "month_index (numeral n) = (case civil_from_days (numeral n) of (y, m, d) \<Rightarrow> 12 * y + (m - 1))"
  by (simp add: month_index_def)

section \<open>The shape of the scan's result\<close>

lemma concat_map_if: "concat (map (\<lambda>x. if P x then [g x] else []) xs) = map g (filter P xs)"
  by (induction xs) auto

lemma flag_rows_alt:
  "flag_rows lib dfc th z inc mu sd ps =
     map (mk_flag lib dfc th z inc mu sd ps)
       (filter (\<lambda>p. row_reasons lib dfc th z inc mu sd ps (snd p) \<noteq> []) (enumerate 0 (rows dfc)))"
  unfolding flag_rows_def Let_def case_prod_beta mk_flag_def
  by (rule concat_map_if)

lemma in_set_flag_rows:
  "f \<in> set (flag_rows lib dfc th z inc mu sd ps) \<longleftrightarrow>
     (\<exists>i < length (rows dfc). row_reasons lib dfc th z inc mu sd ps (rows dfc ! i) \<noteq> [] \<and>
        f = mk_flag lib dfc th z inc mu sd ps (i, rows dfc ! i))"
  by (auto simp: flag_rows_alt in_set_enumerate_eq image_iff)

lemma flag_rows_fires:
  "(\<exists>f \<in> set (flag_rows lib dfc th z inc mu sd ps). f_index f = i \<and> c \<in> set (f_reasons f)) \<longleftrightarrow>
     i < length (rows dfc) \<and> c \<in> set (row_reasons lib dfc th z inc mu sd ps (rows dfc ! i))"
proof
  assume "\<exists>f \<in> set (flag_rows lib dfc th z inc mu sd ps). f_index f = i \<and> c \<in> set (f_reasons f)"
  then show "i < length (rows dfc) \<and> c \<in> set (row_reasons lib dfc th z inc mu sd ps (rows dfc ! i))"
    by (auto simp: in_set_flag_rows mk_flag_def)
next
  assume a: "i < length (rows dfc) \<and> c \<in> set (row_reasons lib dfc th z inc mu sd ps (rows dfc ! i))"
  let ?f = "mk_flag lib dfc th z inc mu sd ps (i, rows dfc ! i)"
  from a have "row_reasons lib dfc th z inc mu sd ps (rows dfc ! i) \<noteq> []" by auto
  with a have "?f \<in> set (flag_rows lib dfc th z inc mu sd ps)"
    unfolding in_set_flag_rows by blast
  moreover from a have "f_index ?f = i \<and> c \<in> set (f_reasons ?f)"
    by (simp add: mk_flag_def)
  ultimately show "\<exists>f \<in> set (flag_rows lib dfc th z inc mu sd ps). f_index f = i \<and> c \<in> set (f_reasons f)"
    by blast
qed

text \<open>With an amount column the scan returns a list: empty, or the sorted flags.\<close>

lemma scan_Inr:
  assumes "has_col dfc ''amount''"
  shows "detect_suspicious_transactions lib (Some dfc) th z k =
     Inr (if rows dfc = [] \<or> dropna (map r_amount (rows dfc)) = [] then []
          else sort_key severity_score
                 (flag_rows lib dfc th z (compute_monthly_income_with lib dfc)
                    (lib_mean lib (dropna (map r_amount (rows dfc))))
                    (if lib_std lib (dropna (map r_amount (rows dfc))) > 0
                     then lib_std lib (dropna (map r_amount (rows dfc))) else 0)
                    (recent_payees lib dfc k)))"
  using assms
  by (auto simp: detect_suspicious_transactions_def Let_def df_empty_def has_col_def)

text \<open>
  A reason is attached to the row at a position exactly when some amount of the table is
  not null and the loop body collects the reason for that row.
\<close>

lemma scan_fires:
  assumes "has_col dfc ''amount''"
  shows "\<exists>fs. detect_suspicious_transactions lib (Some dfc) th z k = Inr fs \<and>
     (\<forall>i c. (\<exists>f \<in> set fs. f_index f = i \<and> c \<in> set (f_reasons f)) \<longleftrightarrow>
        (i < length (rows dfc) \<and> dropna (map r_amount (rows dfc)) \<noteq> [] \<and>
         c \<in> set (scan_reasons lib dfc th z k (rows dfc ! i))))"
proof (cases "rows dfc = [] \<or> dropna (map r_amount (rows dfc)) = []")
  case True
  then show ?thesis
    unfolding scan_Inr [OF assms] by auto
next
  case False
  then show ?thesis
    unfolding scan_Inr [OF assms]
    by (simp add: flag_rows_fires scan_reasons_def Let_def)
qed

lemma dropna_nonempty: "Some a \<in> set xs \<Longrightarrow> dropna xs \<noteq> []"
  by (induction xs) (auto split: option.splits)

section \<open>The scan on empty and malformed tables\<close>

lemma dropna_all_None: "(\<forall>x \<in> set xs. x = None) \<Longrightarrow> dropna xs = []"
  by (induction xs) auto

text \<open>
  C10: the emptiness test comes before the test for the amount column.  An empty table
  gives the empty list of flags whatever its columns are, also when it has no amount
  column, and the error is returned for exactly the tables that are not empty and lack
  the amount column.
\<close>

theorem scan_empty_before_amount_check:
  "(df_empty dfc \<longrightarrow> detect_suspicious_transactions lib (Some dfc) th z k = Inr []) \<and>
   (detect_suspicious_transactions lib (Some dfc) th z k = Inl e \<longleftrightarrow>
      \<not> df_empty dfc \<and> \<not> has_col dfc ''amount'')"
  by (cases e) (auto simp: detect_suspicious_transactions_def Let_def)

theorem scan_empty_before_amount_check_witness:
  "df_empty \<lparr>columns = [''date'', ''description''], rows = []\<rparr> \<and>
   \<not> has_col \<lparr>columns = [''date'', ''description''], rows = []\<rparr> ''amount'' \<and>
   detect_suspicious_transactions exact_lib (Some \<lparr>columns = [''date'', ''description''], rows = []\<rparr>)
     0.5 3 6 = Inr [] \<and>
   detect_suspicious_transactions exact_lib (Some \<lparr>columns = [''date'', ''description''], rows = []\<rparr>)
     0.5 3 6 \<noteq> Inl ValueError_amount_column"
  using scan_empty_before_amount_check
    [of "\<lparr>columns = [''date'', ''description''], rows = []\<rparr>" exact_lib "0.5" 3 6
        ValueError_amount_column]
  by (simp add: df_empty_def has_col_def)

text \<open>
  C8: the scan of an empty table (or of no table) is the empty list and no error; the
  scan of a table that is not empty and has no amount column is the error; and the scan
  of a table whose amounts are all null is the empty list.
\<close>

theorem scan_empty_missing_null:
  "detect_suspicious_transactions lib None th z k = Inr [] \<and>
   (df_empty dfc \<longrightarrow> detect_suspicious_transactions lib (Some dfc) th z k = Inr []) \<and>
   (\<not> df_empty dfc \<and> \<not> has_col dfc ''amount'' \<longrightarrow>
      detect_suspicious_transactions lib (Some dfc) th z k = Inl ValueError_amount_column) \<and>
   (has_col dfc ''amount'' \<and> (\<forall>r \<in> set (rows dfc). r_amount r = None) \<longrightarrow>
      detect_suspicious_transactions lib (Some dfc) th z k = Inr [])"
proof -
  have "dropna (map r_amount (rows dfc)) = []" if "\<forall>r \<in> set (rows dfc). r_amount r = None"
    using that by (intro dropna_all_None) auto
  then show ?thesis
    by (auto simp: detect_suspicious_transactions_def Let_def)
qed

theorem scan_empty_missing_null_witness:
  "df_empty table_no_rows \<and>
   detect_suspicious_transactions exact_lib (Some table_no_rows) 0.5 3 6 = Inr [] \<and>
   \<not> df_empty table_no_amount \<and> \<not> has_col table_no_amount ''amount'' \<and>
   detect_suspicious_transactions exact_lib (Some table_no_amount) 0.5 3 6 = Inl ValueError_amount_column \<and>
   has_col table_null_amounts ''amount'' \<and>
   map r_amount (rows table_null_amounts) = [None] \<and>
   detect_suspicious_transactions exact_lib (Some table_null_amounts) 0.5 3 6 = Inr []"
  using scan_empty_missing_null [of exact_lib "0.5" 3 6 table_no_rows]
    scan_empty_missing_null [of exact_lib "0.5" 3 6 table_no_amount]
    scan_empty_missing_null [of exact_lib "0.5" 3 6 table_null_amounts]
  by (simp add: df_empty_def has_col_def table_no_rows_def table_no_amount_def
        table_null_amounts_def)

section \<open>The unaffordable heuristic\<close>

lemma nth_amount_dropna:
  assumes "i < length rs" and "r_amount (rs ! i) = Some a"
  shows "dropna (map r_amount rs) \<noteq> []"
proof -
  have "map r_amount rs ! i \<in> set (map r_amount rs)"
    using assms(1) by (intro nth_mem) simp
  then have "Some a \<in> set (map r_amount rs)"
    using assms by simp
  then show ?thesis by (rule dropna_nonempty)
qed

lemma in_row_reasons_unaffordable:
  "unaffordable \<in> set (row_reasons lib dfc th z inc mu sd ps r) \<longleftrightarrow>
     check_unaffordable th inc (r_amount r)"
  by (simp add: row_reasons_def Let_def)

lemma days_2025_01:
  "days_from_civil 2025 1 3 = 20091" "days_from_civil 2025 1 10 = 20098"
  "days_from_civil 2025 1 20 = 20108"
  by code_simp+

lemma months_2025_01:
  "month_index 20091 = 24300" "month_index 20098 = 24300" "month_index 20108 = 24300"
  unfolding month_index_numeral by code_simp+

lemma income_table_income_1000: "compute_monthly_income table_income_1000 = 1000"
  by (simp add: compute_monthly_income_def table_income_1000_def mk_row_def has_col_def
        days_2025_01 months_2025_01 resample_M_sum_def mean_def Let_def)

text \<open>
  The test on the two debits of the example, and on two debits at the boundary: 0.35 *
  1000 is the float 350, so a debit of 350 is not above it, and 0.29 * 100 is a float
  below 29, so a debit of 29 is above it.
\<close>

lemma unaffordable_examples:
  "check_unaffordable 0.5 1000 (Some (- 600))" "\<not> check_unaffordable 0.5 1000 (Some (- 400))"
  "\<not> check_unaffordable float_0_35 1000 (Some (- 350))"
  "check_unaffordable float_0_29 100 (Some (- 29))"
  by (simp_all add: check_unaffordable_def fmul_0_35 fmul_0_29)
     (simp_all add: fmul_def round_double_500)

text \<open>
  C4: in the scan of a table with an amount column, the reason \<open>unaffordable\<close> is
  attached to a row exactly when the amount of the row is negative, the estimated monthly
  income is positive and the magnitude of the amount is greater than the threshold times
  the income, the product of the two floats.  With an income of 1000 and a threshold of
  0.5, the test holds for a debit of -600 and fails for a debit of -400.  At the boundary
  the rounding of the product decides: for the float 0.35 and the income 1000 the product
  is the float 350, so that the test fails for a debit of -350; for the float 0.29 and
  the income 100 it is a float below 29, so that the test holds for a debit of -29.
\<close>

theorem unaffordable_fires_iff:
  assumes "has_col dfc ''amount''"
  shows "(\<exists>fs. detect_suspicious_transactions lib (Some dfc) th z k = Inr fs \<and>
     (\<forall>i < length (rows dfc).
        (\<exists>f \<in> set fs. f_index f = i \<and> unaffordable \<in> set (f_reasons f)) \<longleftrightarrow>
        (\<exists>a. r_amount (rows dfc ! i) = Some a \<and> a < 0 \<and>
             compute_monthly_income_with lib dfc > 0 \<and>
             \<bar>a\<bar> > fmul th (compute_monthly_income_with lib dfc)))) \<and>
     check_unaffordable 0.5 1000 (Some (- 600)) \<and> \<not> check_unaffordable 0.5 1000 (Some (- 400)) \<and>
     \<not> check_unaffordable float_0_35 1000 (Some (- 350)) \<and>
     check_unaffordable float_0_29 100 (Some (- 29))"
proof -
  from scan_fires [OF assms, of lib th z k] obtain fs where
    fs: "detect_suspicious_transactions lib (Some dfc) th z k = Inr fs"
    and iff: "\<And>i c. (\<exists>f \<in> set fs. f_index f = i \<and> c \<in> set (f_reasons f)) \<longleftrightarrow>
        (i < length (rows dfc) \<and> dropna (map r_amount (rows dfc)) \<noteq> [] \<and>
         c \<in> set (scan_reasons lib dfc th z k (rows dfc ! i)))"
    by blast
  have "(\<exists>f \<in> set fs. f_index f = i \<and> unaffordable \<in> set (f_reasons f)) \<longleftrightarrow>
        (\<exists>a. r_amount (rows dfc ! i) = Some a \<and> a < 0 \<and>
             compute_monthly_income_with lib dfc > 0 \<and>
             \<bar>a\<bar> > fmul th (compute_monthly_income_with lib dfc))"
    if i: "i < length (rows dfc)" for i
  proof -
    have ne: "dropna (map r_amount (rows dfc)) \<noteq> []" if "r_amount (rows dfc ! i) = Some a" for a
      using i that by (rule nth_amount_dropna)
    show ?thesis
      unfolding iff scan_reasons_def Let_def in_row_reasons_unaffordable check_unaffordable_def
      using i ne by (auto split: option.splits)
  qed
  with fs have "\<exists>fs. detect_suspicious_transactions lib (Some dfc) th z k = Inr fs \<and>
     (\<forall>i < length (rows dfc).
        (\<exists>f \<in> set fs. f_index f = i \<and> unaffordable \<in> set (f_reasons f)) \<longleftrightarrow>
        (\<exists>a. r_amount (rows dfc ! i) = Some a \<and> a < 0 \<and>
             compute_monthly_income_with lib dfc > 0 \<and>
             \<bar>a\<bar> > fmul th (compute_monthly_income_with lib dfc)))"
    by blast
  with unaffordable_examples show ?thesis by (intro conjI)
qed

theorem unaffordable_fires_iff_witness:
  "has_col table_income_1000 ''amount'' \<and>
   compute_monthly_income_with exact_lib table_income_1000 = 1000 \<and>
   (\<exists>fs. detect_suspicious_transactions exact_lib (Some table_income_1000) 0.5 3 6 = Inr fs \<and>
      (\<exists>f \<in> set fs. f_index f = 1 \<and> unaffordable \<in> set (f_reasons f)) \<and>
      \<not> (\<exists>f \<in> set fs. f_index f = 2 \<and> unaffordable \<in> set (f_reasons f)))"
proof -
  have c: "has_col table_income_1000 ''amount''"
    by (simp add: has_col_def table_income_1000_def)
  have r: "length (rows table_income_1000) = 3"
     "r_amount (rows table_income_1000 ! 1) = Some (-600)"
     "r_amount (rows table_income_1000 ! 2) = Some (-400)"
    by (simp_all add: table_income_1000_def mk_row_def)
  have inc: "compute_monthly_income_with exact_lib table_income_1000 = 1000"
    by (simp add: compute_monthly_income_exact income_table_income_1000)
  have p: "fmul 0.5 1000 = 500"
    by (simp add: fmul_def round_double_500)
  from unaffordable_fires_iff [OF c, of exact_lib "0.5" 3 6] obtain fs where
    fs: "detect_suspicious_transactions exact_lib (Some table_income_1000) 0.5 3 6 = Inr fs"
    and iff: "\<forall>i < length (rows table_income_1000).
        (\<exists>f \<in> set fs. f_index f = i \<and> unaffordable \<in> set (f_reasons f)) \<longleftrightarrow>
        (\<exists>a. r_amount (rows table_income_1000 ! i) = Some a \<and> a < 0 \<and>
             compute_monthly_income_with exact_lib table_income_1000 > 0 \<and>
             \<bar>a\<bar> > fmul 0.5 (compute_monthly_income_with exact_lib table_income_1000))"
    by blast
  have "(\<exists>f \<in> set fs. f_index f = 1 \<and> unaffordable \<in> set (f_reasons f)) \<longleftrightarrow>
        (\<exists>a. Some (-600) = Some a \<and> a < 0 \<and> (1000::real) > 0 \<and> \<bar>a\<bar> > (500::real))"
    using iff [rule_format, of 1] unfolding r inc p by simp
  then have a1: "\<exists>f \<in> set fs. f_index f = 1 \<and> unaffordable \<in> set (f_reasons f)"
    by simp
  have "(\<exists>f \<in> set fs. f_index f = 2 \<and> unaffordable \<in> set (f_reasons f)) \<longleftrightarrow>
        (\<exists>a. Some (-400) = Some a \<and> a < 0 \<and> (1000::real) > 0 \<and> \<bar>a\<bar> > (500::real))"
    using iff [rule_format, of 2] unfolding r inc p by simp
  then have a2: "\<not> (\<exists>f \<in> set fs. f_index f = 2 \<and> unaffordable \<in> set (f_reasons f))"
    by simp
  from fs a1 a2 have "\<exists>fs. detect_suspicious_transactions exact_lib (Some table_income_1000) 0.5 3 6 = Inr fs \<and>
      (\<exists>f \<in> set fs. f_index f = 1 \<and> unaffordable \<in> set (f_reasons f)) \<and>
      \<not> (\<exists>f \<in> set fs. f_index f = 2 \<and> unaffordable \<in> set (f_reasons f))"
    by (intro exI [of _ fs] conjI)
  with c inc show ?thesis by (intro conjI)
qed

section \<open>The anomalous-amount heuristic\<close>

lemma in_row_reasons_anomalous:
  "anomalous_amount \<in> set (row_reasons lib dfc th z inc mu sd ps r) \<longleftrightarrow>
     check_anomalous z mu sd (r_amount r)"
  by (simp add: row_reasons_def Let_def)

lemma check_anomalous_std:
  "check_anomalous z mu (if s > 0 then s else 0) amt \<longleftrightarrow>
     (\<exists>a. amt = Some a \<and> s > 0 \<and> \<bar>fdiv (fsub a mu) s\<bar> \<ge> z)"
  by (cases amt) (simp_all add: check_anomalous_def)

lemma scan_anomalous:
  assumes "has_col dfc ''amount''"
  shows "\<exists>fs. detect_suspicious_transactions lib (Some dfc) th z k = Inr fs \<and>
     (\<forall>i < length (rows dfc).
        (\<exists>f \<in> set fs. f_index f = i \<and> anomalous_amount \<in> set (f_reasons f)) \<longleftrightarrow>
        (\<exists>a. r_amount (rows dfc ! i) = Some a \<and>
             lib_std lib (dropna (map r_amount (rows dfc))) > 0 \<and>
             \<bar>fdiv (fsub a (lib_mean lib (dropna (map r_amount (rows dfc)))))
                (lib_std lib (dropna (map r_amount (rows dfc))))\<bar> \<ge> z))"
proof -
  from scan_fires [OF assms, of lib th z k] obtain fs where
    fs: "detect_suspicious_transactions lib (Some dfc) th z k = Inr fs"
    and iff: "\<And>i c. (\<exists>f \<in> set fs. f_index f = i \<and> c \<in> set (f_reasons f)) \<longleftrightarrow>
        (i < length (rows dfc) \<and> dropna (map r_amount (rows dfc)) \<noteq> [] \<and>
         c \<in> set (scan_reasons lib dfc th z k (rows dfc ! i)))"
    by blast
  have "(\<exists>f \<in> set fs. f_index f = i \<and> anomalous_amount \<in> set (f_reasons f)) \<longleftrightarrow>
        (\<exists>a. r_amount (rows dfc ! i) = Some a \<and>
             lib_std lib (dropna (map r_amount (rows dfc))) > 0 \<and>
             \<bar>fdiv (fsub a (lib_mean lib (dropna (map r_amount (rows dfc)))))
                (lib_std lib (dropna (map r_amount (rows dfc))))\<bar> \<ge> z)"
    if i: "i < length (rows dfc)" for i
  proof -
    have ne: "dropna (map r_amount (rows dfc)) \<noteq> []" if "r_amount (rows dfc ! i) = Some a" for a
      using i that by (rule nth_amount_dropna)
    show ?thesis
      unfolding iff scan_reasons_def Let_def in_row_reasons_anomalous check_anomalous_std
      using i ne by auto
  qed
  with fs show ?thesis by blast
qed

text \<open>
  Bounds that decide the test whatever the rounding does: \<open>c1\<close> bounds the magnitude of
  the difference, \<open>c2\<close> that of the quotient, and both are doubles.
\<close>

lemma anomalous_yes:
  assumes "0 < s" and "c1 \<le> \<bar>a - m\<bar>" and "0 < c1" and "round_double c1 = c1"
    and "z \<le> c2" and "0 < c2" and "round_double c2 = c2" and "c2 * s \<le> c1"
  shows "check_anomalous z m s (Some a)"
proof -
  have "c1 \<le> \<bar>fsub a m\<bar>"
    unfolding fsub_def using assms(2,3,4) by (rule round_double_abs_ge)
  with assms(8) have "c2 * s \<le> \<bar>fsub a m\<bar>" by linarith
  then have "c2 \<le> \<bar>fsub a m / s\<bar>"
    using assms(1) by (simp add: abs_divide pos_le_divide_eq)
  then have "c2 \<le> \<bar>fdiv (fsub a m) s\<bar>"
    unfolding fdiv_def using assms(6,7) by (rule round_double_abs_ge)
  with assms(1,5) show ?thesis by (simp add: check_anomalous_def)
qed

lemma anomalous_no:
  assumes "0 < s" and "\<bar>a - m\<bar> \<le> c1" and "round_double c1 = c1"
    and "c2 < z" and "round_double c2 = c2" and "c1 \<le> c2 * s"
  shows "\<not> check_anomalous z m s (Some a)"
proof -
  have "\<bar>fsub a m\<bar> \<le> c1"
    unfolding fsub_def using assms(2,3) by (rule round_double_abs_le)
  with assms(6) have "\<bar>fsub a m\<bar> \<le> c2 * s" by linarith
  then have "\<bar>fsub a m / s\<bar> \<le> c2"
    using assms(1) by (simp add: abs_divide pos_divide_le_eq)
  then have "\<bar>fdiv (fsub a m) s\<bar> \<le> c2"
    unfolding fdiv_def using assms(5) by (rule round_double_abs_le)
  with assms(4) show ?thesis by (simp add: check_anomalous_def)
qed

text \<open>
  A score at the threshold: with the mean 0 and the deviation 10 the score of the amount 1
  is the float 0.1, so that the threshold 0.1 flags it, although one tenth is below that
  float.
\<close>

lemma anomalous_boundary: "check_anomalous float_0_1 0 10 (Some 1)"
  by (simp add: check_anomalous_def fsub_def round_double_1 fdiv_1_10)

lemma mean_outlier: "mean outlier_amounts = - 542 / 5"
  by (simp add: mean_def outlier_amounts_def)

lemma var_outlier:
  "sum_list (map (\<lambda>x. (x - mean outlier_amounts)\<^sup>2) outlier_amounts) /
     real (length outlier_amounts) = 958466 / 25"
  unfolding mean_outlier by (simp add: outlier_amounts_def power2_eq_square)

lemma std_outlier: "std0 outlier_amounts = sqrt (958466 / 25)"
  unfolding std0_def var_outlier ..

text \<open>The deviation of the five amounts is about 195.8.\<close>

lemma std_outlier_bounds: "1958 / 10 < std0 outlier_amounts" "std0 outlier_amounts \<le> 1959 / 10"
proof -
  show "1958 / 10 < std0 outlier_amounts"
    unfolding std_outlier by (rule real_less_rsqrt) (simp add: power2_eq_square)
  show "std0 outlier_amounts \<le> 1959 / 10"
    unfolding std_outlier by (rule real_le_lsqrt) (simp_all add: power2_eq_square)
qed

text \<open>
  A mean and a deviation are close to the exact ones when they differ from them by at
  most a tenth; the floats that a library computes for the five amounts differ from them
  by less than \<open>10\<^sup>-\<^sup>1\<^sup>0\<close>.
\<close>

lemma outlier_close:
  assumes "\<bar>m - mean outlier_amounts\<bar> \<le> 1 / 10" and "\<bar>s - std0 outlier_amounts\<bar> \<le> 1 / 10"
  shows "- 109 \<le> m" and "m \<le> - 108" and "195 \<le> s" and "s \<le> 196"
  using assms std_outlier_bounds unfolding mean_outlier by linarith+

lemma outlier_tests:
  assumes "- 109 \<le> m" and "m \<le> - 108" and "195 \<le> s" and "s \<le> 196"
  shows "\<not> check_anomalous 3 m s (Some (- 10))" "\<not> check_anomalous 3 m s (Some (- 12))"
    "\<not> check_anomalous 3 m s (Some (- 9))" "\<not> check_anomalous 3 m s (Some (- 11))"
    "\<not> check_anomalous 3 m s (Some (- 500))"
    "\<not> check_anomalous (3 / 2) m s (Some (- 10))" "\<not> check_anomalous (3 / 2) m s (Some (- 12))"
    "\<not> check_anomalous (3 / 2) m s (Some (- 9))" "\<not> check_anomalous (3 / 2) m s (Some (- 11))"
    "check_anomalous (3 / 2) m s (Some (- 500))"
proof -
  have s: "0 < s" using assms by simp
  have no3: "\<not> check_anomalous 3 m s (Some a)" if "\<bar>a - m\<bar> \<le> 392" for a
    using s that round_double_392 _ round_double_5_2
    by (rule anomalous_no) (use assms in simp_all)
  have no15: "\<not> check_anomalous (3 / 2) m s (Some a)" if "\<bar>a - m\<bar> \<le> 128" for a
    using s that round_double_128 _ round_double_1
    by (rule anomalous_no) (use assms in simp_all)
  show "\<not> check_anomalous 3 m s (Some (- 10))" "\<not> check_anomalous 3 m s (Some (- 12))"
    "\<not> check_anomalous 3 m s (Some (- 9))" "\<not> check_anomalous 3 m s (Some (- 11))"
    "\<not> check_anomalous 3 m s (Some (- 500))"
    using assms by (auto intro!: no3)
  show "\<not> check_anomalous (3 / 2) m s (Some (- 10))" "\<not> check_anomalous (3 / 2) m s (Some (- 12))"
    "\<not> check_anomalous (3 / 2) m s (Some (- 9))" "\<not> check_anomalous (3 / 2) m s (Some (- 11))"
    using assms by (auto intro!: no15)
  have "384 \<le> \<bar>- 500 - m\<bar>" using assms by simp
  then show "check_anomalous (3 / 2) m s (Some (- 500))"
    using s round_double_384 round_double_7_4
    by (intro anomalous_yes [of s 384 _ _ _ "7 / 4"]) (use assms in simp_all)
qed

lemma amounts_table_outlier: "dropna (map r_amount (rows table_outlier)) = outlier_amounts"
  by (simp add: table_outlier_def outlier_amounts_def amount_row_def)

lemma has_amount_table_outlier: "has_col table_outlier ''amount''"
  by (simp add: has_col_def table_outlier_def)

text \<open>The reasons the loop collects for a row of the table of outlier amounts.\<close>

lemma reasons_table_outlier:
  "row_reasons lib table_outlier th z (compute_monthly_income_with lib table_outlier) m s ps
     (amount_row a) =
   (if check_anomalous z m s (Some a) then [anomalous_amount] else [])"
  by (simp add: row_reasons_def Let_def row_desc_def check_new_payee_def check_freq_def
        check_unaffordable_def compute_monthly_income_with_def has_col_def
        table_outlier_def amount_row_def)

lemma rows_table_outlier:
  "rows table_outlier =
     [amount_row (- 10), amount_row (- 12), amount_row (- 9), amount_row (- 11), amount_row (- 500)]"
  by (simp add: table_outlier_def outlier_amounts_def)

lemma flag_rows_table_outlier:
  "flag_rows lib table_outlier th z (compute_monthly_income_with lib table_outlier) m s ps =
     concat (map (\<lambda>(idx, a).
        if check_anomalous z m s (Some a)
        then [\<lparr>f_index = idx, f_row = amount_row a, f_amount = Some a,
               f_reasons = [anomalous_amount]\<rparr>]
        else []) [(0, - 10), (1, - 12), (2, - 9), (3, - 11), (4, - 500)])"
  unfolding flag_rows_def rows_table_outlier
  by (simp add: reasons_table_outlier Let_def) (simp add: amount_row_def)

text \<open>
  The scan of the five amounts, for a mean and a deviation close to the exact ones: no
  flag with the threshold 3, the row of -500 alone with the threshold 1.5.
\<close>

lemma scan_table_outlier:
  assumes "\<bar>lib_mean lib outlier_amounts - mean outlier_amounts\<bar> \<le> 1 / 10"
    and "\<bar>lib_std lib outlier_amounts - std0 outlier_amounts\<bar> \<le> 1 / 10"
  shows "detect_suspicious_transactions lib (Some table_outlier) th 3 k = Inr []"
    and "detect_suspicious_transactions lib (Some table_outlier) th (3 / 2) k =
       Inr [\<lparr>f_index = 4, f_row = amount_row (- 500), f_amount = Some (- 500),
             f_reasons = [anomalous_amount]\<rparr>]"
proof -
  note b = outlier_close [OF assms]
  note t = outlier_tests [OF b]
  have pos: "0 < lib_std lib outlier_amounts" using b by simp
  have ne: "outlier_amounts \<noteq> []" "rows table_outlier \<noteq> []"
    by (simp_all add: outlier_amounts_def rows_table_outlier)
  show "detect_suspicious_transactions lib (Some table_outlier) th 3 k = Inr []"
    unfolding scan_Inr [OF has_amount_table_outlier] amounts_table_outlier
    using pos ne by (simp add: flag_rows_table_outlier t)
  show "detect_suspicious_transactions lib (Some table_outlier) th (3 / 2) k =
       Inr [\<lparr>f_index = 4, f_row = amount_row (- 500), f_amount = Some (- 500),
             f_reasons = [anomalous_amount]\<rparr>]"
    unfolding scan_Inr [OF has_amount_table_outlier] amounts_table_outlier
    using pos ne by (simp add: flag_rows_table_outlier t)
qed

lemma exact_close:
  "\<bar>lib_mean exact_lib outlier_amounts - mean outlier_amounts\<bar> \<le> 1 / 10"
  "\<bar>lib_std exact_lib outlier_amounts - std0 outlier_amounts\<bar> \<le> 1 / 10"
  by (simp_all add: exact_lib_simps)

text \<open>
  The spec's example fails: with the threshold 3.0 the scan of the amounts -10, -12, -9,
  -11 and -500 flags no row, and the test of the heuristic is false for -500, whose score
  is below 2 in magnitude.
\<close>

theorem outlier_example_counterexample:
  "detect_suspicious_transactions exact_lib (Some table_outlier) 0.5 3 6 = Inr [] \<and>
   \<not> check_anomalous 3 (mean outlier_amounts) (std0 outlier_amounts) (Some (- 500)) \<and>
   \<bar>(- 500 - mean outlier_amounts) / std0 outlier_amounts\<bar> < 2"
proof -
  have "detect_suspicious_transactions exact_lib (Some table_outlier) 0.5 3 6 = Inr []"
    using exact_close by (rule scan_table_outlier(1))
  moreover have "\<not> check_anomalous 3 (mean outlier_amounts) (std0 outlier_amounts) (Some (- 500))"
    using std_outlier_bounds by (intro outlier_tests(5)) (simp_all add: mean_outlier)
  moreover have "\<bar>(- 500 - mean outlier_amounts) / std0 outlier_amounts\<bar> < 2"
  proof -
    have "0 < std0 outlier_amounts" using std_outlier_bounds by linarith
    then show ?thesis
      using std_outlier_bounds by (simp add: mean_outlier abs_divide pos_divide_less_eq)
  qed
  ultimately show ?thesis by (intro conjI)
qed

text \<open>
  C2, amended: in the scan of a table with an amount column, the reason
  \<open>anomalous_amount\<close> is attached to a row exactly when the row has an amount, the
  population standard deviation that the library computes for the amounts that are not
  null is positive and the magnitude of (amount - mean) / deviation, with the signed
  amount and in float arithmetic, is at least the threshold.  For the amounts -10, -12,
  -9, -11 and -500, whenever the computed mean and deviation are within a tenth of the
  exact ones, the threshold 3.0 flags no row (the score of -500 is just under 2 in
  magnitude) and the threshold 1.5 flags the row of -500 and no other.  At the boundary
  the rounding of the score decides: with the mean 0, the deviation 10 and the threshold
  0.1 the amount 1 is flagged.
\<close>

theorem anomalous_fires_iff:
  assumes "has_col dfc ''amount''"
  shows "(\<exists>fs. detect_suspicious_transactions lib (Some dfc) th z k = Inr fs \<and>
     (\<forall>i < length (rows dfc).
        (\<exists>f \<in> set fs. f_index f = i \<and> anomalous_amount \<in> set (f_reasons f)) \<longleftrightarrow>
        (\<exists>a. r_amount (rows dfc ! i) = Some a \<and>
             lib_std lib (dropna (map r_amount (rows dfc))) > 0 \<and>
             \<bar>fdiv (fsub a (lib_mean lib (dropna (map r_amount (rows dfc)))))
                (lib_std lib (dropna (map r_amount (rows dfc))))\<bar> \<ge> z))) \<and>
     (\<bar>lib_mean lib outlier_amounts - mean outlier_amounts\<bar> \<le> 1 / 10 \<and>
      \<bar>lib_std lib outlier_amounts - std0 outlier_amounts\<bar> \<le> 1 / 10 \<longrightarrow>
        detect_suspicious_transactions lib (Some table_outlier) 0.5 3 6 = Inr [] \<and>
        detect_suspicious_transactions lib (Some table_outlier) 0.5 1.5 6 =
          Inr [\<lparr>f_index = 4, f_row = amount_row (- 500), f_amount = Some (- 500),
                f_reasons = [anomalous_amount]\<rparr>]) \<and>
     check_anomalous float_0_1 0 10 (Some 1)"
proof -
  have "detect_suspicious_transactions lib (Some table_outlier) 0.5 3 6 = Inr [] \<and>
        detect_suspicious_transactions lib (Some table_outlier) 0.5 1.5 6 =
          Inr [\<lparr>f_index = 4, f_row = amount_row (- 500), f_amount = Some (- 500),
                f_reasons = [anomalous_amount]\<rparr>]"
    if "\<bar>lib_mean lib outlier_amounts - mean outlier_amounts\<bar> \<le> 1 / 10"
      and "\<bar>lib_std lib outlier_amounts - std0 outlier_amounts\<bar> \<le> 1 / 10"
    using scan_table_outlier [OF that, of "0.5" 6] by simp
  with scan_anomalous [OF assms, of lib th z k] anomalous_boundary show ?thesis by blast
qed

theorem anomalous_fires_iff_witness:
  "has_col table_outlier ''amount'' \<and>
   \<bar>lib_mean exact_lib outlier_amounts - mean outlier_amounts\<bar> \<le> 1 / 10 \<and>
   \<bar>lib_std exact_lib outlier_amounts - std0 outlier_amounts\<bar> \<le> 1 / 10 \<and>
   detect_suspicious_transactions exact_lib (Some table_outlier) 0.5 3 6 = Inr [] \<and>
   detect_suspicious_transactions exact_lib (Some table_outlier) 0.5 1.5 6 =
     Inr [\<lparr>f_index = 4, f_row = amount_row (- 500), f_amount = Some (- 500),
           f_reasons = [anomalous_amount]\<rparr>] \<and>
   (\<exists>fs. detect_suspicious_transactions exact_lib (Some table_outlier) 0.5 1.5 6 = Inr fs \<and>
      (\<exists>f \<in> set fs. f_index f = 4 \<and> anomalous_amount \<in> set (f_reasons f)) \<and>
      \<not> (\<exists>f \<in> set fs. f_index f = 0 \<and> anomalous_amount \<in> set (f_reasons f)))"
proof -
  note c = has_amount_table_outlier
  note t = outlier_tests [OF outlier_close [OF exact_close]]
  have r: "length (rows table_outlier) = 5"
     "r_amount (rows table_outlier ! 4) = Some (- 500)"
     "r_amount (rows table_outlier ! 0) = Some (- 10)"
    by (simp_all add: rows_table_outlier amount_row_def)
  have pos: "0 < lib_std exact_lib outlier_amounts"
    using outlier_close [OF exact_close] by simp
  have e: "(\<exists>a. Some b = Some a \<and> lib_std exact_lib outlier_amounts > 0 \<and>
              \<bar>fdiv (fsub a (lib_mean exact_lib outlier_amounts))
                 (lib_std exact_lib outlier_amounts)\<bar> \<ge> 1.5) \<longleftrightarrow>
           check_anomalous (3 / 2) (lib_mean exact_lib outlier_amounts)
             (lib_std exact_lib outlier_amounts) (Some b)" for b :: real
    by (simp add: check_anomalous_def)
  from anomalous_fires_iff [OF c, of exact_lib "0.5" "1.5" 6] exact_close obtain fs where
    fs: "detect_suspicious_transactions exact_lib (Some table_outlier) 0.5 1.5 6 = Inr fs"
    and iff: "\<forall>i < length (rows table_outlier).
        (\<exists>f \<in> set fs. f_index f = i \<and> anomalous_amount \<in> set (f_reasons f)) \<longleftrightarrow>
        (\<exists>a. r_amount (rows table_outlier ! i) = Some a \<and>
             lib_std exact_lib (dropna (map r_amount (rows table_outlier))) > 0 \<and>
             \<bar>fdiv (fsub a (lib_mean exact_lib (dropna (map r_amount (rows table_outlier)))))
                (lib_std exact_lib (dropna (map r_amount (rows table_outlier))))\<bar> \<ge> 1.5)"
    and s3: "detect_suspicious_transactions exact_lib (Some table_outlier) 0.5 3 6 = Inr []"
    and s15: "detect_suspicious_transactions exact_lib (Some table_outlier) 0.5 1.5 6 =
       Inr [\<lparr>f_index = 4, f_row = amount_row (- 500), f_amount = Some (- 500),
             f_reasons = [anomalous_amount]\<rparr>]"
    by blast
  have "(\<exists>f \<in> set fs. f_index f = 4 \<and> anomalous_amount \<in> set (f_reasons f)) \<longleftrightarrow>
        check_anomalous (3 / 2) (lib_mean exact_lib outlier_amounts)
             (lib_std exact_lib outlier_amounts) (Some (- 500))"
    using iff [rule_format, of 4] unfolding amounts_table_outlier r e by simp
  then have a1: "\<exists>f \<in> set fs. f_index f = 4 \<and> anomalous_amount \<in> set (f_reasons f)"
    using t(10) by simp
  have "(\<exists>f \<in> set fs. f_index f = 0 \<and> anomalous_amount \<in> set (f_reasons f)) \<longleftrightarrow>
        check_anomalous (3 / 2) (lib_mean exact_lib outlier_amounts)
             (lib_std exact_lib outlier_amounts) (Some (- 10))"
    using iff [rule_format, of 0] unfolding amounts_table_outlier r e by simp
  then have a2: "\<not> (\<exists>f \<in> set fs. f_index f = 0 \<and> anomalous_amount \<in> set (f_reasons f))"
    using t(6) by simp
  from fs a1 a2 have "\<exists>fs. detect_suspicious_transactions exact_lib (Some table_outlier) 0.5 1.5 6 = Inr fs \<and>
      (\<exists>f \<in> set fs. f_index f = 4 \<and> anomalous_amount \<in> set (f_reasons f)) \<and>
      \<not> (\<exists>f \<in> set fs. f_index f = 0 \<and> anomalous_amount \<in> set (f_reasons f))"
    by (intro exI [of _ fs] conjI)
  with c exact_close s3 s15 show ?thesis by (intro conjI)
qed

section \<open>Severity and the order of the flags\<close>

lemma days_sev: "days_from_civil 2024 1 15 = 19737" "days_from_civil 2025 1 3 = 20091"
  "days_from_civil 2025 1 10 = 20098"
  by code_simp+

lemma months_sev: "month_index 19737 = 24288" "month_index 20091 = 24300" "month_index 20098 = 24300"
  unfolding month_index_numeral by code_simp+

lemma minus_sev: "minus_months 20098 6 = 19914"
proof -
  have "(case civil_from_days 20098 of (y, m, d) \<Rightarrow>
          (let mi = 12 * y + (m - 1) - 6; y' = mi div 12; m' = mi mod 12 + 1
           in days_from_civil y' m' (min d (days_in_month y' m')))) = 19914"
    by code_simp
  then show ?thesis
    by (simp add: minus_months_def Let_def case_prod_beta)
qed

lemma rows_sev: "rows table_severity =
   [mk_row 19737 ''oldshop'' (- 10), mk_row 20091 ''salary'' 1000, mk_row 20098 ''rent'' (- 900)]"
  by (simp add: table_severity_def days_sev)

lemma cols_sev: "has_col table_severity ''date''" "has_col table_severity ''description''"
  "has_col table_severity ''amount''"
  by (simp_all add: table_severity_def has_col_def)

lemma upto_sev: "[24288..24300::int] = [24288, 24289, 24290, 24291, 24292, 24293, 24294, 24295, 24296, 24297, 24298, 24299, 24300]"
  by code_simp

lemma income_sev: "compute_monthly_income table_severity = 100"
  by (simp add: compute_monthly_income_def cols_sev rows_sev mk_row_def months_sev
        resample_M_sum_def mean_def Let_def upto_sev)

lemma amounts_sev: "dropna (map r_amount (rows table_severity)) = [- 10, 1000, - 900]"
  by (simp add: rows_sev mk_row_def)

lemma mean_sev: "mean [- 10, 1000, - 900] = 30"
  by (simp add: mean_def)

lemma std_sev: "std0 [- 10, 1000, - 900] = sqrt (1807400 / 3)"
  unfolding std0_def mean_sev by (simp add: power2_eq_square)

lemma norm_strs: "norm_desc exact_lib (Some (ustr ''oldshop'')) = ustr ''oldshop''"
  "norm_desc exact_lib (Some (ustr ''salary'')) = ustr ''salary''"
  "norm_desc exact_lib (Some (ustr ''rent'')) = ustr ''rent''"
  by (simp_all add: norm_desc_def exact_lib_simps py_str_def py_strip_def py_lower_def ustr_def
        py_isspace_def lower_cp_def)

lemma payees_sev: "recent_payees exact_lib table_severity 6 = [ustr ''salary'', ustr ''rent'']"
  using norm_strs
  by (simp add: recent_payees_def cols_sev rows_sev mk_row_def Let_def minus_sev norm_desc_def py_str_def)

lemma ustr_ne: "ustr ''oldshop'' \<noteq> []" "ustr ''salary'' \<noteq> []" "ustr ''rent'' \<noteq> []"
  "ustr ''oldshop'' \<noteq> ustr ''salary''" "ustr ''oldshop'' \<noteq> ustr ''rent''"
  "ustr ''salary'' \<noteq> ustr ''rent''" "ustr ''salary'' \<noteq> ustr ''oldshop''"
  "ustr ''rent'' \<noteq> ustr ''oldshop''" "ustr ''rent'' \<noteq> ustr ''salary''"
  by (simp_all add: ustr_def)

text \<open>The deviation of the three amounts is about 776.2.\<close>

lemma std_sev_bounds: "776 \<le> sqrt (1807400 / 3)" "sqrt (1807400 / 3) \<le> 777"
proof -
  show "776 \<le> sqrt (1807400 / 3)"
    by (rule real_le_rsqrt) (simp add: power2_eq_square)
  show "sqrt (1807400 / 3) \<le> 777"
    by (rule real_le_lsqrt) (simp_all add: power2_eq_square)
qed

lemma anomalous_sev:
  "\<not> check_anomalous 1 30 (sqrt (1807400 / 3)) (Some (- 10))"
  "check_anomalous 1 30 (sqrt (1807400 / 3)) (Some 1000)"
  "check_anomalous 1 30 (sqrt (1807400 / 3)) (Some (- 900))"
proof -
  have s: "0 < sqrt (1807400 / 3)" by simp
  show "\<not> check_anomalous 1 30 (sqrt (1807400 / 3)) (Some (- 10))"
    using s _ round_double_64 _ round_double_half
    by (rule anomalous_no) (use std_sev_bounds in simp_all)
  have yes: "check_anomalous 1 30 (sqrt (1807400 / 3)) (Some a)" if "896 \<le> \<bar>a - 30\<bar>" for a
    using s that _ round_double_896 _ _ round_double_1
    by (rule anomalous_yes) (use std_sev_bounds in simp_all)
  show "check_anomalous 1 30 (sqrt (1807400 / 3)) (Some 1000)"
    "check_anomalous 1 30 (sqrt (1807400 / 3)) (Some (- 900))"
    by (simp_all add: yes)
qed

lemma fmul_half_100: "fmul (1 / 2) 100 = 50"
  by (simp add: fmul_def round_double_50)

lemma freq_sev:
  "\<not> check_freq exact_lib table_severity (ustr ''oldshop'')" "\<not> check_freq exact_lib table_severity (ustr ''salary'')"
  "\<not> check_freq exact_lib table_severity (ustr ''rent'')"
  by (simp_all add: check_freq_def payee_rows_def rows_sev mk_row_def norm_strs ustr_ne Let_def)

lemma reasons_sev:
  "row_reasons exact_lib table_severity (1 / 2) 1 100 30 (sqrt (1807400 / 3)) [ustr ''salary'', ustr ''rent'']
     (mk_row 19737 ''oldshop'' (- 10)) = [new_payee]"
  "row_reasons exact_lib table_severity (1 / 2) 1 100 30 (sqrt (1807400 / 3)) [ustr ''salary'', ustr ''rent'']
     (mk_row 20091 ''salary'' 1000) = [anomalous_amount]"
  "row_reasons exact_lib table_severity (1 / 2) 1 100 30 (sqrt (1807400 / 3)) [ustr ''salary'', ustr ''rent'']
     (mk_row 20098 ''rent'' (- 900)) = [unaffordable, anomalous_amount]"
  by (simp_all add: row_reasons_def row_desc_def cols_sev Let_def check_unaffordable_def
        check_new_payee_def anomalous_sev freq_sev norm_strs ustr_ne mk_row_def fmul_half_100)

lemma flag_rows_sev:
  "flag_rows exact_lib table_severity (1 / 2) 1 100 30 (sqrt (1807400 / 3)) [ustr ''salary'', ustr ''rent''] =
     [flag_oldshop, flag_salary, flag_rent]"
  unfolding flag_rows_def rows_sev
  by (simp add: reasons_sev flag_rent_def flag_salary_def flag_oldshop_def) (simp add: mk_row_def)

lemma scores_sev: "severity_score flag_rent = - 150" "severity_score flag_salary = - 50"
  "severity_score flag_oldshop = - 20"
  by (simp_all add: severity_score_def score_step_def flag_rent_def flag_salary_def flag_oldshop_def)

lemma scan_sev:
  "detect_suspicious_transactions exact_lib (Some table_severity) 0.5 1 6 =
     Inr [flag_rent, flag_salary, flag_oldshop]"
  unfolding scan_Inr [OF cols_sev(3)] amounts_sev exact_lib_simps compute_monthly_income_exact
    income_sev mean_sev std_sev payees_sev
  by (simp add: flag_rows_sev scores_sev rows_sev)

lemma fold_score_step:
  "fold score_step rs s =
     s + 100 * int (count_list rs unaffordable) + 50 * int (count_list rs anomalous_amount) +
     20 * int (count_list rs new_payee) + 10 * int (count_list rs freq_small_trans)"
  by (induction rs arbitrary: s) (auto simp: score_step_def)

lemma severity_count:
  "severity f =
     100 * int (count_list (f_reasons f) unaffordable) +
     50 * int (count_list (f_reasons f) anomalous_amount) +
     20 * int (count_list (f_reasons f) new_payee) +
     10 * int (count_list (f_reasons f) freq_small_trans)"
  by (simp add: severity_def severity_score_def fold_score_step)

lemma count_row_reasons: "count_list (row_reasons lib dfc th z inc mu sd ps r) c \<le> 1"
  by (cases c) (simp_all add: row_reasons_def Let_def)

lemma before_key: "before = key_before"
  by (auto simp: before_def key_before_def severity_def fun_eq_iff)

lemma key_before_mono: "key_before f g \<Longrightarrow> severity_score f \<le> severity_score g"
  by (auto simp: key_before_def)

text \<open>A stable sort of flags that are in row order puts them in the order \<open>before\<close>.\<close>

lemma sorted_insort_key_before:
  assumes "sorted_wrt key_before ys" and "\<forall>y \<in> set ys. f_index x < f_index y"
  shows "sorted_wrt key_before (insort_key severity_score x ys)"
  using assms
proof (induction ys)
  case Nil
  then show ?case by simp
next
  case (Cons y ys)
  show ?case
  proof (cases "severity_score x \<le> severity_score y")
    case True
    have "key_before x w" if "w \<in> set (y # ys)" for w
    proof -
      have "severity_score y \<le> severity_score w"
        using that Cons.prems(1) by (auto dest: key_before_mono)
      with True have "severity_score x \<le> severity_score w" by simp
      moreover have "f_index x < f_index w" using that Cons.prems(2) by blast
      ultimately show ?thesis by (auto simp: key_before_def)
    qed
    with True Cons.prems(1) show ?thesis by simp
  next
    case False
    then have "key_before y x" by (simp add: key_before_def)
    moreover have "sorted_wrt key_before (insort_key severity_score x ys)"
      using Cons by simp
    ultimately show ?thesis
      using False Cons.prems(1) by (auto simp: set_insort_key)
  qed
qed

lemma sorted_sort_key_before:
  assumes "sorted_wrt (<) (map f_index xs)"
  shows "sorted_wrt key_before (sort_key severity_score xs)"
  using assms
proof (induction xs)
  case Nil
  then show ?case by simp
next
  case (Cons x xs)
  then have "sorted_wrt key_before (sort_key severity_score xs)" by simp
  moreover have "\<forall>y \<in> set (sort_key severity_score xs). f_index x < f_index y"
    using Cons.prems by auto
  ultimately show ?case
    by (simp add: sorted_insort_key_before)
qed

lemma flag_rows_index_sorted: "sorted_wrt (<) (map f_index (flag_rows lib dfc th z inc mu sd ps))"
proof -
  have "map f_index (flag_rows lib dfc th z inc mu sd ps) =
      map fst (filter (\<lambda>p. row_reasons lib dfc th z inc mu sd ps (snd p) \<noteq> []) (enumerate 0 (rows dfc)))"
    by (simp add: flag_rows_alt mk_flag_def comp_def)
  moreover have "sorted_wrt (<) (map fst (filter P (enumerate n xs)))" for P and n :: nat and xs :: "row list"
  proof -
    have "sorted_wrt (\<lambda>p q. fst p < fst q) (enumerate n xs)"
      by (simp add: sorted_wrt_map [symmetric] strict_sorted_iff [symmetric])
    then have "sorted_wrt (\<lambda>p q. fst p < fst q) (filter P (enumerate n xs))"
      by (rule sorted_wrt_filter)
    then show ?thesis by (simp add: sorted_wrt_map)
  qed
  ultimately show ?thesis by simp
qed

lemma flag_rows_counts:
  "f \<in> set (flag_rows lib dfc th z inc mu sd ps) \<Longrightarrow> count_list (f_reasons f) c \<le> 1"
  using count_row_reasons [of lib dfc th z inc mu sd ps _ c]
  by (auto simp: in_set_flag_rows mk_flag_def)

lemma scan_cases:
  assumes "detect_suspicious_transactions lib df th z k = Inr fs"
  shows "fs = [] \<or> (\<exists>dfc inc mu sd ps. df = Some dfc \<and>
           fs = sort_key severity_score (flag_rows lib dfc th z inc mu sd ps))"
  using assms
  by (auto simp: detect_suspicious_transactions_def Let_def split: option.splits if_splits)

text \<open>
  C6: for every flag the scan returns, the severity is 100 times the number of
  \<open>unaffordable\<close> reasons plus 50 times \<open>anomalous_amount\<close> plus 20 times
  \<open>new_payee\<close> plus 10 times \<open>freq_small_trans\<close>, and every code occurs at most
  once among its reasons.  The result is in descending order of severity, flags of equal
  severity in the order of their rows; so a flag of severity 150 stands before one of
  severity 20.
\<close>

theorem severity_and_order:
  assumes "detect_suspicious_transactions lib df th z k = Inr fs"
  shows "(\<forall>f \<in> set fs.
            severity f =
              100 * int (count_list (f_reasons f) unaffordable) +
              50 * int (count_list (f_reasons f) anomalous_amount) +
              20 * int (count_list (f_reasons f) new_payee) +
              10 * int (count_list (f_reasons f) freq_small_trans) \<and>
            (\<forall>c. count_list (f_reasons f) c \<le> 1)) \<and>
         sorted_wrt before fs \<and>
         (\<forall>p q. p < length fs \<and> q < length fs \<and> severity (fs ! p) = 150 \<and>
                severity (fs ! q) = 20 \<longrightarrow> p < q)"
proof -
  have counts: "\<forall>f \<in> set fs. \<forall>c. count_list (f_reasons f) c \<le> 1"
    using scan_cases [OF assms] by (auto simp del: One_nat_def dest: flag_rows_counts)
  have sorted: "sorted_wrt before fs"
    using scan_cases [OF assms]
    by (auto simp: before_key intro: sorted_sort_key_before flag_rows_index_sorted)
  have order: "p < q"
    if "p < length fs" "q < length fs" "severity (fs ! p) = 150" "severity (fs ! q) = 20" for p q
  proof (rule ccontr)
    assume "\<not> p < q"
    then consider "p = q" | "q < p" by linarith
    then show False
    proof cases
      case 1
      with that show False by simp
    next
      case 2
      with sorted that(1) have "before (fs ! q) (fs ! p)"
        by (simp add: sorted_wrt_iff_nth_less)
      with that show False by (simp add: before_def)
    qed
  qed
  from counts sorted order show ?thesis
    by (simp add: severity_count [symmetric])
qed

theorem severity_and_order_witness:
  "detect_suspicious_transactions exact_lib (Some table_severity) 0.5 1 6 =
     Inr [flag_rent, flag_salary, flag_oldshop] \<and>
   map f_index [flag_rent, flag_salary, flag_oldshop] = [2, 1, 0] \<and>
   severity flag_rent = 150 \<and> severity flag_salary = 50 \<and> severity flag_oldshop = 20 \<and>
   sorted_wrt before [flag_rent, flag_salary, flag_oldshop] \<and>
   f_reasons flag_rent = [unaffordable, anomalous_amount] \<and> f_reasons flag_oldshop = [new_payee]"
  using severity_and_order [OF scan_sev] scan_sev
  by (simp add: severity_def scores_sev flag_rent_def flag_salary_def flag_oldshop_def)

section \<open>The burst-frequency heuristic\<close>

text \<open>At most 7 whole days: less than 8 days.\<close>

lemma floor_le_7: "\<lfloor>x\<rfloor> \<le> 7 \<longleftrightarrow> x < 8" for x :: real
proof -
  have "\<lfloor>x\<rfloor> \<le> 7 \<longleftrightarrow> \<lfloor>x\<rfloor> < 8" by linarith
  also have "\<dots> \<longleftrightarrow> x < 8" by (simp add: floor_less_iff)
  finally show ?thesis .
qed

lemma window_hit_iff:
  "window_hit ds \<longleftrightarrow> (\<exists>j. j + 3 < length ds \<and> \<lfloor>ds ! (j + 3) - ds ! j\<rfloor> \<le> 7)"
  unfolding window_hit_def list_ex_iff
  by (auto simp: less_diff_conv)

lemma in_row_reasons_freq:
  "freq_small_trans \<in> set (row_reasons lib dfc th z inc mu sd ps r) \<longleftrightarrow>
     check_freq lib dfc (row_desc lib dfc r)"
  by (simp add: row_reasons_def Let_def)

lemma scan_freq:
  assumes "has_col dfc ''amount''"
  shows "\<exists>fs. detect_suspicious_transactions lib (Some dfc) th z k = Inr fs \<and>
     (\<forall>i < length (rows dfc).
        (\<exists>f \<in> set fs. f_index f = i \<and> freq_small_trans \<in> set (f_reasons f)) \<longleftrightarrow>
        (dropna (map r_amount (rows dfc)) \<noteq> [] \<and>
         check_freq lib dfc (row_desc lib dfc (rows dfc ! i)))) \<and>
     (\<forall>f \<in> set fs. count_list (f_reasons f) freq_small_trans \<le> 1)"
proof -
  from scan_fires [OF assms, of lib th z k] obtain fs where
    fs: "detect_suspicious_transactions lib (Some dfc) th z k = Inr fs"
    and iff: "\<And>i c. (\<exists>f \<in> set fs. f_index f = i \<and> c \<in> set (f_reasons f)) \<longleftrightarrow>
        (i < length (rows dfc) \<and> dropna (map r_amount (rows dfc)) \<noteq> [] \<and>
         c \<in> set (scan_reasons lib dfc th z k (rows dfc ! i)))"
    by blast
  have "\<forall>i < length (rows dfc).
        (\<exists>f \<in> set fs. f_index f = i \<and> freq_small_trans \<in> set (f_reasons f)) \<longleftrightarrow>
        (dropna (map r_amount (rows dfc)) \<noteq> [] \<and>
         check_freq lib dfc (row_desc lib dfc (rows dfc ! i)))"
    unfolding iff scan_reasons_def Let_def in_row_reasons_freq by simp
  moreover have "\<forall>f \<in> set fs. count_list (f_reasons f) freq_small_trans \<le> 1"
    using scan_cases [OF fs] by (auto simp del: One_nat_def dest: flag_rows_counts)
  ultimately show ?thesis using fs by blast
qed

lemma check_freq_iff:
  "check_freq lib dfc desc \<longleftrightarrow>
     has_col dfc ''date'' \<and> desc \<noteq> [] \<and> burst_whole_days lib dfc desc"
  by (simp add: check_freq_def burst_whole_days_def Let_def window_hit_iff)

text \<open>A span of at most 7 days is a span of at most 7 whole days.\<close>

lemma burst_condition_whole_days:
  "burst_condition lib dfc desc \<Longrightarrow> burst_whole_days lib dfc desc"
  unfolding burst_condition_def burst_whole_days_def floor_le_7 by fastforce

lemma norm_blank: "norm_desc exact_lib (Some (ustr '''')) = []"
  by (simp add: norm_desc_def exact_lib_simps py_str_def py_strip_def py_lower_def ustr_def)

lemma rows_blank: "rows table_blank_burst =
   [mk_row 20091 '''' 5, mk_row 20091 '''' 5, mk_row 20091 '''' 5, mk_row 20091 '''' 5]"
  by (simp add: table_blank_burst_def)

lemma cols_blank: "has_col table_blank_burst ''date''" "has_col table_blank_burst ''description''"
  "has_col table_blank_burst ''amount''"
  by (simp_all add: table_blank_burst_def has_col_def)

lemma payee_rows_blank: "payee_rows exact_lib table_blank_burst [] = rows table_blank_burst"
  by (simp add: payee_rows_def rows_blank mk_row_def norm_blank)

lemma burst_blank:
  "burst_condition exact_lib table_blank_burst
     (norm_desc exact_lib (r_description (rows table_blank_burst ! 0)))"
proof -
  have n: "norm_desc exact_lib (r_description (rows table_blank_burst ! 0)) = []"
    by (simp add: rows_blank mk_row_def norm_blank)
  have d: "dropna (map r_date (rows table_blank_burst)) = [20091, 20091, 20091, 20091]"
    by (simp add: rows_blank mk_row_def)
  have "(0::nat) + 3 < length [20091, 20091, 20091, 20091 :: real] \<and>
      sort [20091, 20091, 20091, 20091 :: real] ! (0 + 3) -
      sort [20091, 20091, 20091, 20091 :: real] ! 0 \<le> 7"
    by simp
  then have "\<exists>j. j + 3 < length [20091, 20091, 20091, 20091 :: real] \<and>
      sort [20091, 20091, 20091, 20091 :: real] ! (j + 3) -
      sort [20091, 20091, 20091, 20091 :: real] ! j \<le> 7"
    by (rule exI)
  then show ?thesis
    unfolding n burst_condition_def payee_rows_blank d by (simp add: rows_blank)
qed

lemma reasons_blank:
  "row_reasons exact_lib table_blank_burst th z inc mu 0 ps (mk_row 20091 '''' 5) = []"
  by (simp add: row_reasons_def Let_def row_desc_def cols_blank check_unaffordable_def
      check_anomalous_def check_new_payee_def check_freq_def mk_row_def norm_blank)

lemma scan_blank:
  "detect_suspicious_transactions exact_lib (Some table_blank_burst) 0.5 3 6 = Inr []"
proof -
  have am: "dropna (map r_amount (rows table_blank_burst)) = [5, 5, 5, 5]"
    by (simp add: rows_blank mk_row_def)
  have sd: "lib_std exact_lib [5, 5, 5, 5] = 0"
    by (simp add: exact_lib_simps std0_def mean_def)
  show ?thesis
    unfolding scan_Inr [OF cols_blank(3)] am sd
    by (simp add: flag_rows_def rows_blank reasons_blank)
qed

lemma rows_burst: "rows table_burst =
   [mk_row 20089 ''Coffee'' (- 5), mk_row 20090 ''coffee '' (- 5),
    mk_row 20091 ''coffee'' (- 5), mk_row_evening 20096 ''COFFEE'' (- 5),
    mk_row 20148 ''coffee'' (- 5)]"
  by (simp add: table_burst_def)

lemma cols_burst: "has_col table_burst ''date''" "has_col table_burst ''description''"
  "has_col table_burst ''amount''"
  by (simp_all add: table_burst_def has_col_def)

lemma norm_coffee:
  "norm_desc exact_lib (Some (ustr ''Coffee'')) = ustr ''coffee''"
  "norm_desc exact_lib (Some (ustr ''coffee '')) = ustr ''coffee''"
  "norm_desc exact_lib (Some (ustr ''coffee'')) = ustr ''coffee''"
  "norm_desc exact_lib (Some (ustr ''COFFEE'')) = ustr ''coffee''"
  by (simp_all add: norm_desc_def exact_lib_simps py_str_def py_strip_def py_lower_def ustr_def
        py_isspace_def lower_cp_def)

lemma payee_rows_burst: "payee_rows exact_lib table_burst (ustr ''coffee'') = rows table_burst"
  by (simp add: payee_rows_def rows_burst mk_row_def mk_row_evening_def norm_coffee)

lemma row_desc_burst:
  "row_desc exact_lib table_burst (rows table_burst ! 0) = ustr ''coffee''"
  "row_desc exact_lib table_burst (rows table_burst ! 4) = ustr ''coffee''"
  by (simp_all add: row_desc_def cols_burst rows_burst mk_row_def norm_coffee)

text \<open>
  The dates of the five payments, in days: the fourth is 7.75 days after the first, the
  fifth 58 days after the second.
\<close>

lemma dates_burst:
  "dropna (map r_date (rows table_burst)) = [20089, 20090, 20091, 80387 / 4, 20148]"
  "sort [20089, 20090, 20091, 80387 / 4, 20148 :: real] = [20089, 20090, 20091, 80387 / 4, 20148]"
  by (simp_all add: rows_burst mk_row_def mk_row_evening_def)

lemma burst_whole_days_exec:
  "burst_whole_days lib dfc desc \<longleftrightarrow>
     length (payee_rows lib dfc desc) \<ge> 4 \<and>
     length (dropna (map r_date (payee_rows lib dfc desc))) \<ge> 4 \<and>
     window_hit (sort (dropna (map r_date (payee_rows lib dfc desc))))"
  by (simp add: burst_whole_days_def window_hit_iff)

lemma burst_coffee: "burst_whole_days exact_lib table_burst (ustr ''coffee'')"
proof -
  have "window_hit [20089, 20090, 20091, 80387 / 4, 20148]"
    by (simp add: window_hit_def upt_rec)
  moreover have "length (rows table_burst) = 5"
    by (simp add: rows_burst)
  ultimately show ?thesis
    by (simp add: burst_whole_days_exec payee_rows_burst dates_burst)
qed

lemma not_burst_coffee: "\<not> burst_condition exact_lib table_burst (ustr ''coffee'')"
proof -
  have "\<not> (j + 3 < length [20089, 20090, 20091, 80387 / 4, 20148 :: real] \<and>
      [20089, 20090, 20091, 80387 / 4, 20148 :: real] ! (j + 3) -
      [20089, 20090, 20091, 80387 / 4, 20148 :: real] ! j \<le> 7)" for j :: nat
  proof (cases "j = 0 \<or> j = 1")
    case True
    then show ?thesis by auto
  next
    case False
    then show ?thesis by simp
  qed
  then show ?thesis
    unfolding burst_condition_def payee_rows_burst dates_burst by simp
qed

lemma scan_burst:
  "\<exists>fs. detect_suspicious_transactions exact_lib (Some table_burst) 0.5 3 6 = Inr fs \<and>
     (\<exists>f \<in> set fs. f_index f = 0 \<and> freq_small_trans \<in> set (f_reasons f))"
proof -
  have n: "(0::nat) < length (rows table_burst)"
    by (simp add: rows_burst)
  have am: "dropna (map r_amount (rows table_burst)) \<noteq> []"
    by (simp add: rows_burst mk_row_def)
  have ne: "ustr ''coffee'' \<noteq> []" by (simp add: ustr_def)
  from scan_freq [OF cols_burst(3), of exact_lib "0.5" 3 6] obtain fs where
    fs: "detect_suspicious_transactions exact_lib (Some table_burst) 0.5 3 6 = Inr fs"
    and iff: "\<forall>i < length (rows table_burst).
        (\<exists>f \<in> set fs. f_index f = i \<and> freq_small_trans \<in> set (f_reasons f)) \<longleftrightarrow>
        (dropna (map r_amount (rows table_burst)) \<noteq> [] \<and>
         check_freq exact_lib table_burst (row_desc exact_lib table_burst (rows table_burst ! i)))"
    by blast
  have "\<exists>f \<in> set fs. f_index f = 0 \<and> freq_small_trans \<in> set (f_reasons f)"
    using iff [rule_format, OF n] am cols_burst(1) ne burst_coffee
    unfolding row_desc_burst check_freq_iff by blast
  with fs show ?thesis by (intro exI [of _ fs] conjI)
qed

text \<open>
  The claim as stated fails in both directions.  On rows with an empty description: the
  four rows share it, all have dates and the dates span no day at all, yet the scan
  returns no flag.  And on a span between 7 and 8 days: no 4 consecutive dates of the
  five payments span at most 7 days, yet the scan flags the payments, because the source
  counts the span in whole days.
\<close>

theorem burst_blank_counterexample:
  "burst_condition exact_lib table_blank_burst
     (norm_desc exact_lib (r_description (rows table_blank_burst ! 0))) \<and>
   has_col table_blank_burst ''date'' \<and> has_col table_blank_burst ''description'' \<and>
   detect_suspicious_transactions exact_lib (Some table_blank_burst) 0.5 3 6 = Inr [] \<and>
   \<not> burst_condition exact_lib table_burst (row_desc exact_lib table_burst (rows table_burst ! 0)) \<and>
   (\<exists>fs. detect_suspicious_transactions exact_lib (Some table_burst) 0.5 3 6 = Inr fs \<and>
      (\<exists>f \<in> set fs. f_index f = 0 \<and> freq_small_trans \<in> set (f_reasons f)))"
  using burst_blank cols_blank scan_blank not_burst_coffee scan_burst
  unfolding row_desc_burst by (intro conjI)

text \<open>
  C7, amended: in the scan of a table with an amount column, \<open>freq_small_trans\<close> is
  attached to a row exactly when some amount of the table is not null, the table has a
  date column, the lower-cased, trimmed description of the row is not empty, at least 4
  rows share the description, at least 4 of them have dates, and some window of 4
  consecutive sorted dates spans at most 7 whole days, that is, less than 8 days.  Rows
  with the same description are flagged alike, whether or not their dates lie in the
  window, and the reason is attached at most once to a row.
\<close>

theorem burst_fires_iff:
  assumes "has_col dfc ''amount''"
  shows "\<exists>fs. detect_suspicious_transactions lib (Some dfc) th z k = Inr fs \<and>
     (\<forall>i < length (rows dfc).
        (\<exists>f \<in> set fs. f_index f = i \<and> freq_small_trans \<in> set (f_reasons f)) \<longleftrightarrow>
        (dropna (map r_amount (rows dfc)) \<noteq> [] \<and> has_col dfc ''date'' \<and>
         row_desc lib dfc (rows dfc ! i) \<noteq> [] \<and>
         burst_whole_days lib dfc (row_desc lib dfc (rows dfc ! i)))) \<and>
     (\<forall>i < length (rows dfc). \<forall>j < length (rows dfc).
        row_desc lib dfc (rows dfc ! i) = row_desc lib dfc (rows dfc ! j) \<longrightarrow>
        ((\<exists>f \<in> set fs. f_index f = i \<and> freq_small_trans \<in> set (f_reasons f)) \<longleftrightarrow>
         (\<exists>f \<in> set fs. f_index f = j \<and> freq_small_trans \<in> set (f_reasons f)))) \<and>
     (\<forall>f \<in> set fs. count_list (f_reasons f) freq_small_trans \<le> 1)"
proof -
  from scan_freq [OF assms, of lib th z k] obtain fs where
    fs: "detect_suspicious_transactions lib (Some dfc) th z k = Inr fs"
    and iff: "\<forall>i < length (rows dfc).
        (\<exists>f \<in> set fs. f_index f = i \<and> freq_small_trans \<in> set (f_reasons f)) \<longleftrightarrow>
        (dropna (map r_amount (rows dfc)) \<noteq> [] \<and>
         check_freq lib dfc (row_desc lib dfc (rows dfc ! i)))"
    and once: "\<forall>f \<in> set fs. count_list (f_reasons f) freq_small_trans \<le> 1"
    by blast
  have same: "\<forall>i < length (rows dfc). \<forall>j < length (rows dfc).
        row_desc lib dfc (rows dfc ! i) = row_desc lib dfc (rows dfc ! j) \<longrightarrow>
        ((\<exists>f \<in> set fs. f_index f = i \<and> freq_small_trans \<in> set (f_reasons f)) \<longleftrightarrow>
         (\<exists>f \<in> set fs. f_index f = j \<and> freq_small_trans \<in> set (f_reasons f)))"
    using iff by simp
  from iff have "\<forall>i < length (rows dfc).
        (\<exists>f \<in> set fs. f_index f = i \<and> freq_small_trans \<in> set (f_reasons f)) \<longleftrightarrow>
        (dropna (map r_amount (rows dfc)) \<noteq> [] \<and> has_col dfc ''date'' \<and>
         row_desc lib dfc (rows dfc ! i) \<noteq> [] \<and>
         burst_whole_days lib dfc (row_desc lib dfc (rows dfc ! i)))"
    by (simp add: check_freq_iff)
  with fs same once show ?thesis by blast
qed

theorem burst_fires_iff_witness:
  "has_col table_burst ''amount'' \<and>
   (\<exists>fs. detect_suspicious_transactions exact_lib (Some table_burst) 0.5 3 6 = Inr fs \<and>
      (\<exists>f \<in> set fs. f_index f = 0 \<and> freq_small_trans \<in> set (f_reasons f)) \<and>
      (\<exists>f \<in> set fs. f_index f = 4 \<and> freq_small_trans \<in> set (f_reasons f)))"
proof -
  note c = cols_burst(3)
  have n: "(0::nat) < length (rows table_burst)" "(4::nat) < length (rows table_burst)"
    by (simp_all add: rows_burst)
  have am: "dropna (map r_amount (rows table_burst)) \<noteq> []"
    by (simp add: rows_burst mk_row_def)
  have ne: "ustr ''coffee'' \<noteq> []" by (simp add: ustr_def)
  from burst_fires_iff [OF c, of exact_lib "0.5" 3 6] obtain fs where
    fs: "detect_suspicious_transactions exact_lib (Some table_burst) 0.5 3 6 = Inr fs"
    and iff: "\<forall>i < length (rows table_burst).
        (\<exists>f \<in> set fs. f_index f = i \<and> freq_small_trans \<in> set (f_reasons f)) \<longleftrightarrow>
        (dropna (map r_amount (rows table_burst)) \<noteq> [] \<and> has_col table_burst ''date'' \<and>
         row_desc exact_lib table_burst (rows table_burst ! i) \<noteq> [] \<and>
         burst_whole_days exact_lib table_burst (row_desc exact_lib table_burst (rows table_burst ! i)))"
    by blast
  have a0: "\<exists>f \<in> set fs. f_index f = 0 \<and> freq_small_trans \<in> set (f_reasons f)"
    using iff [rule_format, OF n(1)] am cols_burst(1) ne burst_coffee
    unfolding row_desc_burst by blast
  have a4: "\<exists>f \<in> set fs. f_index f = 4 \<and> freq_small_trans \<in> set (f_reasons f)"
    using iff [rule_format, OF n(2)] am cols_burst(1) ne burst_coffee
    unfolding row_desc_burst by blast
  from fs a0 a4 have "\<exists>fs. detect_suspicious_transactions exact_lib (Some table_burst) 0.5 3 6 = Inr fs \<and>
      (\<exists>f \<in> set fs. f_index f = 0 \<and> freq_small_trans \<in> set (f_reasons f)) \<and>
      (\<exists>f \<in> set fs. f_index f = 4 \<and> freq_small_trans \<in> set (f_reasons f))"
    by (intro exI [of _ fs] conjI)
  with c show ?thesis by (intro conjI)
qed

section \<open>The income estimate\<close>


















section \<open>The amount parser on the examples\<close>

lemma strip_examples:
  "py_strip rupee_amount = rupee_amount"
  "py_strip (ustr ''Rs. -500'') = ustr ''Rs. -500''"
  "py_strip (ustr []) = []"
  "py_strip (ustr ''--'') = ustr ''--''"
  by (simp_all add: py_strip_def py_isspace_def ustr_def rupee_amount_def)

lemma keep_examples:
  "keep_amount_chars (remove_char 44 (remove_char 8377 (remove_char 8377 rupee_amount))) = ustr ''1234.50''"
  "keep_amount_chars (remove_char 44 (remove_char 8377 (remove_char 8377 (ustr ''Rs. -500'')))) = ustr ''.-500''"
  "keep_amount_chars (remove_char 44 (remove_char 8377 (remove_char 8377 (ustr ''--'')))) = ustr ''--''"
  by (simp_all add: keep_amount_chars_def remove_char_def is_digit_def ustr_def rupee_amount_def)

lemma parts_examples:
  "float_parts (ustr ''1234.50'') = Some (False, 123450, 2)"
  "float_parts (ustr ''.-500'') = None"
  "float_parts (ustr ''--'') = None"
  by (simp_all add: float_parts_def is_digit_def digits_value_def ustr_def Let_def)

lemma ustr_facts:
  "rupee_amount \<noteq> []" "ustr ''Rs. -500'' \<noteq> []" "ustr ''--'' \<noteq> []"
  "ustr ''1234.50'' \<noteq> []" "ustr ''1234.50'' \<noteq> [46]" "ustr ''1234.50'' \<noteq> [45]"
  "ustr ''.-500'' \<noteq> []" "ustr ''.-500'' \<noteq> [46]" "ustr ''.-500'' \<noteq> [45]"
  "ustr ''--'' \<noteq> [46]" "ustr ''--'' \<noteq> [45]"
  by (simp_all add: ustr_def rupee_amount_def)

lemma clean_rs_500: "clean_amount (Some (ustr ''Rs. 500'')) = Some 0.5"
  by (simp add: clean_amount_def py_float_def float_parts_def digits_value_def
        keep_amount_chars_def remove_char_def is_digit_def py_strip_def py_isspace_def ustr_def
        Let_def)

text \<open>
  C1: the parser on the four examples.  Three results are those of the claim.  For
  \<open>Rs. -500\<close> the text left after the substitution is \<open>.-500\<close>, the dot of
  \<open>Rs.\<close> before the sign, which \<open>float\<close> rejects: the result is null, not -500.
  In the same way \<open>Rs. 500\<close> is read as 0.5.
\<close>

theorem clean_amount_examples:
  "clean_amount (Some rupee_amount) = Some 1234.5 \<and>
   clean_amount (Some (ustr ''Rs. -500'')) = None \<and>
   clean_amount (Some (ustr [])) = None \<and>
   clean_amount (Some (ustr ''--'')) = None \<and>
   clean_amount (Some (ustr ''Rs. 500'')) = Some 0.5"
proof -
  have "clean_amount (Some rupee_amount) = Some 1234.5"
    by (simp add: clean_amount_def Let_def strip_examples keep_examples parts_examples
          ustr_facts py_float_def)
  moreover have "clean_amount (Some (ustr ''Rs. -500'')) = None"
    by (simp add: clean_amount_def Let_def strip_examples keep_examples parts_examples
          ustr_facts py_float_def)
  moreover have "clean_amount (Some (ustr [])) = None"
    by (simp add: clean_amount_def Let_def strip_examples)
  moreover have "clean_amount (Some (ustr ''--'')) = None"
    by (simp add: clean_amount_def Let_def strip_examples keep_examples parts_examples
          ustr_facts py_float_def)
  ultimately show ?thesis using clean_rs_500 by (intro conjI)
qed


section \<open>The sign of the amounts of the final table\<close>

lemma normalize_amount_cases:
  "normalize_amount ty raw (Some amt) =
     Some (if debit_cue ty then - \<bar>amt\<bar>
           else if credit_cue ty then \<bar>amt\<bar>
           else if raw_cr_cue raw then \<bar>amt\<bar>
           else if raw_dr_cue raw then - \<bar>amt\<bar>
           else amt)"
  by (simp add: normalize_amount_def debit_cue_def credit_cue_def raw_cr_cue_def raw_dr_cue_def Let_def)

lemma normalize_amount_None: "normalize_amount ty raw None = None"
  by (simp add: normalize_amount_def)

lemma in_final_table:
  "r \<in> set (final_table frs) \<longleftrightarrow>
     (\<exists>fr \<in> set frs. \<exists>amt. clean_amount (fr_amount_raw fr) = Some amt \<and> r = final_row fr)"
proof -
  have "final_amount fr \<noteq> None \<longleftrightarrow> (\<exists>amt. clean_amount (fr_amount_raw fr) = Some amt)" for fr
    by (cases "clean_amount (fr_amount_raw fr)")
       (simp_all add: final_amount_def normalize_amount_None normalize_amount_cases)
  then show ?thesis
    by (auto simp: final_table_def)
qed

text \<open>
  C3, amended: every row of the final table comes from a row whose amount text parses,
  keeps its type text, and has the amount the cascade gives: minus the magnitude when the
  lower-cased type contains \<open>debit\<close> or \<open>dr\<close>; else the magnitude when it
  contains \<open>credit\<close> or \<open>cr\<close>; else the magnitude when the lower-cased raw
  amount ends with \<open>cr\<close> or contains \<open> cr\<close>; else minus the magnitude when it
  ends with \<open>dr\<close> or contains \<open> dr\<close>; else the parsed amount.  So a type
  with a debit cue gives an amount that is at most 0, and negative unless the parsed
  amount is 0; a type with a credit cue and no debit cue gives an amount that is at least
  0, and positive unless the parsed amount is 0.
\<close>

theorem sign_precedence:
  assumes "r \<in> set (final_table frs)"
  shows "\<exists>fr \<in> set frs. \<exists>amt a.
     clean_amount (fr_amount_raw fr) = Some amt \<and> r_type r = Some (fr_type fr) \<and>
     r_amount r = Some a \<and>
     a = (if debit_cue (fr_type fr) then - \<bar>amt\<bar>
          else if credit_cue (fr_type fr) then \<bar>amt\<bar>
          else if raw_cr_cue (fr_amount_raw fr) then \<bar>amt\<bar>
          else if raw_dr_cue (fr_amount_raw fr) then - \<bar>amt\<bar>
          else amt) \<and>
     (debit_cue (fr_type fr) \<longrightarrow> a \<le> 0 \<and> (amt \<noteq> 0 \<longrightarrow> a < 0)) \<and>
     (credit_cue (fr_type fr) \<and> \<not> debit_cue (fr_type fr) \<longrightarrow> a \<ge> 0 \<and> (amt \<noteq> 0 \<longrightarrow> a > 0))"
proof -
  from assms obtain fr amt where fr: "fr \<in> set frs"
    and amt: "clean_amount (fr_amount_raw fr) = Some amt" and r: "r = final_row fr"
    unfolding in_final_table by blast
  let ?a = "if debit_cue (fr_type fr) then - \<bar>amt\<bar>
          else if credit_cue (fr_type fr) then \<bar>amt\<bar>
          else if raw_cr_cue (fr_amount_raw fr) then \<bar>amt\<bar>
          else if raw_dr_cue (fr_amount_raw fr) then - \<bar>amt\<bar>
          else amt"
  have "r_type r = Some (fr_type fr)" "r_amount r = Some ?a"
    by (simp_all add: r final_row_def final_amount_def amt normalize_amount_cases)
  moreover have "debit_cue (fr_type fr) \<longrightarrow> ?a \<le> 0 \<and> (amt \<noteq> 0 \<longrightarrow> ?a < 0)"
    by simp
  moreover have "credit_cue (fr_type fr) \<and> \<not> debit_cue (fr_type fr) \<longrightarrow>
      ?a \<ge> 0 \<and> (amt \<noteq> 0 \<longrightarrow> ?a > 0)"
    by simp
  ultimately show ?thesis using fr amt by blast
qed

lemmas amount_defs = clean_amount_def py_float_def float_parts_def digits_value_def
  keep_amount_chars_def remove_char_def is_digit_def py_strip_def py_isspace_def ustr_def Let_def

lemmas cue_defs = debit_cue_def credit_cue_def raw_cr_cue_def raw_dr_cue_def ends_with_def
  py_lower_def lower_cp_def py_str_def ustr_def

lemma clean_examples:
  "clean_amount (Some (ustr ''0'')) = Some 0"
  "clean_amount (Some (ustr ''500'')) = Some 500"
  "clean_amount (Some (ustr ''Rs 500'')) = Some 500"
  "clean_amount (Some (ustr ''-200'')) = Some (- 200)"
  "clean_amount (Some (ustr ''300 Cr'')) = Some 300"
  "clean_amount (Some (ustr ''-50'')) = Some (- 50)"
  "clean_amount (Some (ustr ''--'')) = None"
  by (simp_all add: amount_defs)

lemma cue_examples:
  "debit_cue (ustr ''Debit'')" "debit_cue (ustr ''Credit card withdrawal'')"
  "credit_cue (ustr ''Credit card withdrawal'')"
  "debit_cue (ustr ''UPI Debit'')" "\<not> debit_cue (ustr ''Credit'')" "credit_cue (ustr ''Credit'')"
  "\<not> debit_cue (ustr [])" "\<not> credit_cue (ustr [])"
  "raw_cr_cue (Some (ustr ''300 Cr''))"
  "\<not> raw_cr_cue (Some (ustr ''-50''))" "\<not> raw_dr_cue (Some (ustr ''-50''))"
  by (simp_all add: cue_defs)

lemma final_amount_examples:
  "final_amount (mk_filtered ''Debit'' ''0'') = Some 0"
  "final_amount (mk_filtered ''Credit card withdrawal'' ''500'') = Some (- 500)"
  "final_amount (mk_filtered ''UPI Debit'' ''Rs 500'') = Some (- 500)"
  "final_amount (mk_filtered ''Credit'' ''-200'') = Some 200"
  "final_amount (mk_filtered [] ''300 Cr'') = Some 300"
  "final_amount (mk_filtered [] ''-50'') = Some (- 50)"
  "final_amount (mk_filtered ''Credit'' ''--'') = None"
  by (simp_all add: final_amount_def mk_filtered_def clean_examples normalize_amount_cases
        normalize_amount_None cue_examples)

text \<open>
  The invariant as stated fails twice: a debit whose amount is 0 stays 0, and a type text
  with both a credit cue and a debit cue (\<open>withdrawal\<close> contains \<open>dr\<close>) gives a
  negative amount.
\<close>

theorem sign_invariant_counterexample:
  "map r_type (final_table table_zero_debit) =
     [Some (ustr ''Debit''), Some (ustr ''Credit card withdrawal'')] \<and>
   map r_amount (final_table table_zero_debit) = [Some 0, Some (- 500)] \<and>
   contains (py_lower (ustr ''Debit'')) (ustr ''debit'') \<and>
   contains (py_lower (ustr ''Credit card withdrawal'')) (ustr ''credit'')"
proof -
  have "map r_type (final_table table_zero_debit) =
     [Some (ustr ''Debit''), Some (ustr ''Credit card withdrawal'')]"
    by (simp add: final_table_def table_zero_debit_def final_amount_examples final_row_def)
       (simp add: mk_filtered_def)
  moreover have "map r_amount (final_table table_zero_debit) = [Some 0, Some (- 500)]"
    by (simp add: final_table_def table_zero_debit_def final_amount_examples final_row_def)
  moreover have "contains (py_lower (ustr ''Debit'')) (ustr ''debit'')"
    "contains (py_lower (ustr ''Credit card withdrawal'')) (ustr ''credit'')"
    by (simp_all add: py_lower_def lower_cp_def ustr_def)
  ultimately show ?thesis by (intro conjI)
qed

theorem sign_precedence_witness:
  "map r_amount (final_table table_signs) = [Some (- 500), Some 200, Some 300, Some (- 50)] \<and>
   final_row (mk_filtered ''UPI Debit'' ''Rs 500'') \<in> set (final_table table_signs) \<and>
   (\<exists>fr \<in> set table_signs. \<exists>amt a.
      clean_amount (fr_amount_raw fr) = Some amt \<and>
      r_type (final_row (mk_filtered ''UPI Debit'' ''Rs 500'')) = Some (fr_type fr) \<and>
      r_amount (final_row (mk_filtered ''UPI Debit'' ''Rs 500'')) = Some a \<and> a < 0)"
proof -
  have v: "map r_amount (final_table table_signs) = [Some (- 500), Some 200, Some 300, Some (- 50)]"
    by (simp add: final_table_def table_signs_def final_amount_examples final_row_def)
  have m: "final_row (mk_filtered ''UPI Debit'' ''Rs 500'') \<in> set (final_table table_signs)"
    by (simp add: final_table_def table_signs_def final_amount_examples)
  have a: "r_amount (final_row (mk_filtered ''UPI Debit'' ''Rs 500'')) = Some (- 500)"
    by (simp add: final_row_def final_amount_examples)
  from sign_precedence [OF m] obtain fr amt a where
    "fr \<in> set table_signs" "clean_amount (fr_amount_raw fr) = Some amt"
    "r_type (final_row (mk_filtered ''UPI Debit'' ''Rs 500'')) = Some (fr_type fr)"
    "r_amount (final_row (mk_filtered ''UPI Debit'' ''Rs 500'')) = Some a"
    by blast
  moreover from this a have "a < 0" by simp
  ultimately have "\<exists>fr \<in> set table_signs. \<exists>amt a.
      clean_amount (fr_amount_raw fr) = Some amt \<and>
      r_type (final_row (mk_filtered ''UPI Debit'' ''Rs 500'')) = Some (fr_type fr) \<and>
      r_amount (final_row (mk_filtered ''UPI Debit'' ''Rs 500'')) = Some a \<and> a < 0"
    by blast
  with v m show ?thesis by (intro conjI)
qed


end
